theory Spec2Isabelle
  imports Main
begin

section \<open>Python primitives used by the engine\<close>

text \<open>
  The engine is Python: list and string subscripts accept a negative index, which counts
  from the end, and raise \<^verbatim>\<open>IndexError\<close> outside \<open>-n .. n-1\<close>; a dictionary lookup of
  a missing key raises \<^verbatim>\<open>KeyError\<close>; \<^verbatim>\<open>list.remove\<close> of an absent value raises
  \<^verbatim>\<open>ValueError\<close>. Every raise is a value \<open>Inl e\<close> of the result.
\<close>

datatype error = IndexError | KeyError | ValueError

definition py_norm :: "nat \<Rightarrow> int \<Rightarrow> int" where
  "py_norm n i = (if i < 0 then i + int n else i)"

definition py_index :: "'a list \<Rightarrow> int \<Rightarrow> error + 'a" where
  "py_index xs i =
     (let j = py_norm (length xs) i in
      if j < 0 \<or> int (length xs) \<le> j then Inl IndexError else Inr (xs ! nat j))"

definition py_setitem :: "'a list \<Rightarrow> int \<Rightarrow> 'a \<Rightarrow> error + 'a list" where
  "py_setitem xs i v =
     (let j = py_norm (length xs) i in
      if j < 0 \<or> int (length xs) \<le> j then Inl IndexError else Inr (xs[nat j := v]))"

text \<open>A subscript of a string gives a string of one character.\<close>

definition py_str_index :: "string \<Rightarrow> int \<Rightarrow> error + string" where
  "py_str_index s i = (case py_index s i of Inl e \<Rightarrow> Inl e | Inr ch \<Rightarrow> Inr [ch])"

text \<open>\<^verbatim>\<open>range(n)\<close> as the list of its values.\<close>

definition py_range :: "nat \<Rightarrow> int list" where
  "py_range n = map int [0..<n]"

section \<open>The board\<close>

text \<open>
  \<^verbatim>\<open>self.board\<close> is a list of rows, each a list of two-character strings: colour
  (\<open>w\<close>, \<open>b\<close>) then kind (\<open>K Q B R N p\<close>), or \<open>--\<close> for an empty square. The rows are
  distinct list objects (they are written out in \<^verbatim>\<open>__init__\<close> and never reassigned), so an
  assignment to \<^verbatim>\<open>board[r][c]\<close> changes that one row only.
\<close>

type_synonym board = "string list list"

definition cell :: "board \<Rightarrow> int \<Rightarrow> int \<Rightarrow> error + string" where
  "cell b r c = (case py_index b r of Inl e \<Rightarrow> Inl e | Inr row \<Rightarrow> py_index row c)"

definition cell_char :: "board \<Rightarrow> int \<Rightarrow> int \<Rightarrow> int \<Rightarrow> error + string" where
  "cell_char b r c k = (case cell b r c of Inl e \<Rightarrow> Inl e | Inr p \<Rightarrow> py_str_index p k)"

definition cell_set :: "board \<Rightarrow> int \<Rightarrow> int \<Rightarrow> string \<Rightarrow> error + board" where
  "cell_set b r c v =
     (case py_index b r of Inl e \<Rightarrow> Inl e
      | Inr row \<Rightarrow>
          (case py_setitem row c v of Inl e \<Rightarrow> Inl e
           | Inr row' \<Rightarrow> Inr (b[nat (py_norm (length b) r) := row'])))"

section \<open>Move records\<close>

record Move =
  startRow :: int
  startCol :: int
  endRow :: int
  endCol :: int
  pieceMoved :: string
  pieceCaptured :: string
  moveID :: int

text \<open>\<^verbatim>\<open>Move.__init__(startSq, endSq, board)\<close>: the two pieces are read from the board.\<close>

definition Move_init :: "int \<times> int \<Rightarrow> int \<times> int \<Rightarrow> board \<Rightarrow> error + Move" where
  "Move_init startSq endSq b =
     (case cell b (fst startSq) (snd startSq) of Inl e \<Rightarrow> Inl e
      | Inr pm \<Rightarrow>
          (case cell b (fst endSq) (snd endSq) of Inl e \<Rightarrow> Inl e
           | Inr pc \<Rightarrow>
               Inr \<lparr>startRow = fst startSq, startCol = snd startSq,
                    endRow = fst endSq, endCol = snd endSq,
                    pieceMoved = pm, pieceCaptured = pc,
                    moveID = fst startSq * 1000 + snd startSq * 100
                             + fst endSq * 10 + snd endSq\<rparr>))"

text \<open>\<^verbatim>\<open>Move.__eq__\<close> between two moves.\<close>

definition Move_eq :: "Move \<Rightarrow> Move \<Rightarrow> bool" where
  "Move_eq m other = (moveID m = moveID other)"

text \<open>\<^verbatim>\<open>moves.append(Move(startSq, endSq, self.board))\<close>.\<close>

definition append_move :: "Move list \<Rightarrow> int \<times> int \<Rightarrow> int \<times> int \<Rightarrow> board \<Rightarrow> error + Move list" where
  "append_move moves startSq endSq b =
     (case Move_init startSq endSq b of Inl e \<Rightarrow> Inl e | Inr m \<Rightarrow> Inr (moves @ [m]))"

text \<open>\<^verbatim>\<open>moves.remove(x)\<close>: the first element equal to \<open>x\<close> under \<^verbatim>\<open>__eq__\<close> goes.\<close>

fun list_remove :: "Move list \<Rightarrow> Move \<Rightarrow> error + Move list" where
  "list_remove [] x = Inl ValueError"
| "list_remove (m # ms) x =
     (if Move_eq m x then Inr ms
      else (case list_remove ms x of Inl e \<Rightarrow> Inl e | Inr ms' \<Rightarrow> Inr (m # ms')))"

section \<open>Game state\<close>

record GameState =
  board :: board
  whiteToMove :: bool
  moveLog :: "Move list"
  whiteKingLocation :: "int \<times> int"
  blackKingLocation :: "int \<times> int"
  checkMate :: bool
  staleMate :: bool

definition init_board :: board where
  "init_board =
     [[''bR'', ''bN'', ''bB'', ''bQ'', ''bK'', ''bB'', ''bN'', ''bR''],
      [''bp'', ''bp'', ''bp'', ''bp'', ''bp'', ''bp'', ''bp'', ''bp''],
      [''--'', ''--'', ''--'', ''--'', ''--'', ''--'', ''--'', ''--''],
      [''--'', ''--'', ''--'', ''--'', ''--'', ''--'', ''--'', ''--''],
      [''--'', ''--'', ''--'', ''--'', ''--'', ''--'', ''--'', ''--''],
      [''--'', ''--'', ''--'', ''--'', ''--'', ''--'', ''--'', ''--''],
      [''wp'', ''wp'', ''wp'', ''wp'', ''wp'', ''wp'', ''wp'', ''wp''],
      [''wR'', ''wN'', ''wB'', ''wQ'', ''wK'', ''wB'', ''wN'', ''wR'']]"

text \<open>\<^verbatim>\<open>GameState.__init__\<close>.\<close>

definition init_state :: GameState where
  "init_state =
     \<lparr>board = init_board, whiteToMove = True, moveLog = [],
      whiteKingLocation = (7, 4), blackKingLocation = (0, 4),
      checkMate = False, staleMate = False\<rparr>"

subsection \<open>makeMove and undoMove\<close>

text \<open>
  The two king tests compare \<^verbatim>\<open>move.pieceMoved[1]\<close>, a string of one character, with the
  two-character strings \<^verbatim>\<open>'wK'\<close> and \<^verbatim>\<open>'bK'\<close>, as the source does.
\<close>

definition makeMove :: "GameState \<Rightarrow> Move \<Rightarrow> error + GameState" where
  "makeMove s move =
     (case cell_set (board s) (startRow move) (startCol move) ''--'' of Inl e \<Rightarrow> Inl e
      | Inr b1 \<Rightarrow>
     (case cell_set b1 (endRow move) (endCol move) (pieceMoved move) of Inl e \<Rightarrow> Inl e
      | Inr b2 \<Rightarrow>
     (case py_str_index (pieceMoved move) 1 of Inl e \<Rightarrow> Inl e
      | Inr k \<Rightarrow>
          (if k = ''wK'' then
             Inr (s\<lparr>board := b2, moveLog := moveLog s @ [move],
                    whiteToMove := \<not> whiteToMove s,
                    whiteKingLocation := (endRow move, endCol move)\<rparr>)
           else if k = ''bK'' then
             Inr (s\<lparr>board := b2, moveLog := moveLog s @ [move],
                    whiteToMove := \<not> whiteToMove s,
                    blackKingLocation := (endRow move, endCol move)\<rparr>)
           else
             Inr (s\<lparr>board := b2, moveLog := moveLog s @ [move],
                    whiteToMove := \<not> whiteToMove s\<rparr>)))))"

definition undoMove :: "GameState \<Rightarrow> error + GameState" where
  "undoMove s =
     (if length (moveLog s) \<noteq> 0 then
        (let move = last (moveLog s) in
         (case cell_set (board s) (startRow move) (startCol move) (pieceMoved move) of
            Inl e \<Rightarrow> Inl e
          | Inr b1 \<Rightarrow>
         (case cell_set b1 (endRow move) (endCol move) (pieceCaptured move) of
            Inl e \<Rightarrow> Inl e
          | Inr b2 \<Rightarrow>
         (case py_str_index (pieceMoved move) 1 of Inl e \<Rightarrow> Inl e
          | Inr k \<Rightarrow>
              (if k = ''wK'' then
                 Inr (s\<lparr>board := b2, moveLog := butlast (moveLog s),
                        whiteToMove := \<not> whiteToMove s,
                        whiteKingLocation := (startRow move, startCol move)\<rparr>)
               else if k = ''bK'' then
                 Inr (s\<lparr>board := b2, moveLog := butlast (moveLog s),
                        whiteToMove := \<not> whiteToMove s,
                        blackKingLocation := (startRow move, startCol move)\<rparr>)
               else
                 Inr (s\<lparr>board := b2, moveLog := butlast (moveLog s),
                        whiteToMove := \<not> whiteToMove s\<rparr>))))))
      else Inr s)"

section \<open>Move generation\<close>

subsection \<open>Pawns\<close>

text \<open>
  The white and the black branch of \<^verbatim>\<open>getPawnmoves\<close> are the same three statements
  with other rows and another enemy colour. \<open>pawn_advance\<close> is the first \<^verbatim>\<open>if\<close> (one
  step, and two steps nested in it), \<open>pawn_capture\<close> is one diagonal \<^verbatim>\<open>if\<close>; the
  column test comes first and short-circuits the board access, and no test looks at the row.
\<close>

definition pawn_advance ::
    "board \<Rightarrow> int \<Rightarrow> int \<Rightarrow> int \<Rightarrow> int \<Rightarrow> bool \<Rightarrow> Move list \<Rightarrow> error + Move list" where
  "pawn_advance b r c r1 r2 home moves =
     (case cell b r1 c of Inl e \<Rightarrow> Inl e
      | Inr p1 \<Rightarrow>
          (if p1 = ''--'' then
             (case append_move moves (r, c) (r1, c) b of Inl e \<Rightarrow> Inl e
              | Inr moves1 \<Rightarrow>
                  (if home then
                     (case cell b r2 c of Inl e \<Rightarrow> Inl e
                      | Inr p2 \<Rightarrow>
                          (if p2 = ''--'' then append_move moves1 (r, c) (r2, c) b
                           else Inr moves1))
                   else Inr moves1))
           else Inr moves))"

definition pawn_capture ::
    "board \<Rightarrow> int \<Rightarrow> int \<Rightarrow> int \<Rightarrow> int \<Rightarrow> bool \<Rightarrow> string \<Rightarrow> Move list \<Rightarrow> error + Move list" where
  "pawn_capture b r c r1 c1 inside enemy moves =
     (if inside then
        (case cell_char b r1 c1 0 of Inl e \<Rightarrow> Inl e
         | Inr k \<Rightarrow> (if k = enemy then append_move moves (r, c) (r1, c1) b else Inr moves))
      else Inr moves)"

definition getPawnmoves :: "GameState \<Rightarrow> int \<Rightarrow> int \<Rightarrow> Move list \<Rightarrow> error + Move list" where
  "getPawnmoves s r c moves =
     (if whiteToMove s then
        (case pawn_advance (board s) r c (r - 1) (r - 2) (r = 6) moves of Inl e \<Rightarrow> Inl e
         | Inr moves1 \<Rightarrow>
        (case pawn_capture (board s) r c (r - 1) (c - 1) (c - 1 \<ge> 0) ''b'' moves1 of
           Inl e \<Rightarrow> Inl e
         | Inr moves2 \<Rightarrow>
             pawn_capture (board s) r c (r - 1) (c + 1) (c + 1 \<le> 7) ''b'' moves2))
      else
        (case pawn_advance (board s) r c (r + 1) (r + 2) (r = 1) moves of Inl e \<Rightarrow> Inl e
         | Inr moves1 \<Rightarrow>
        (case pawn_capture (board s) r c (r + 1) (c - 1) (c - 1 \<ge> 0) ''w'' moves1 of
           Inl e \<Rightarrow> Inl e
         | Inr moves2 \<Rightarrow>
             pawn_capture (board s) r c (r + 1) (c + 1) (c + 1 \<le> 7) ''w'' moves2)))"

subsection \<open>Rooks, bishops, queens\<close>

text \<open>
  \<^verbatim>\<open>getRookmoves\<close> and \<^verbatim>\<open>getBishopmoves\<close> are the same two nested loops over other
  directions. \<open>slide_ray\<close> is the inner loop over the distances \<^verbatim>\<open>range(1,8)\<close> with its
  three \<^verbatim>\<open>break\<close>s; \<open>slide_dirs\<close> is the outer loop over the directions.
\<close>

fun slide_ray ::
    "board \<Rightarrow> string \<Rightarrow> int \<Rightarrow> int \<Rightarrow> int \<times> int \<Rightarrow> int list \<Rightarrow> Move list \<Rightarrow> error + Move list" where
  "slide_ray b enemyColor r c d [] moves = Inr moves"
| "slide_ray b enemyColor r c d (i # is) moves =
     (if 0 \<le> r + fst d * i \<and> r + fst d * i < 8 \<and> 0 \<le> c + snd d * i \<and> c + snd d * i < 8 then
        (case cell b (r + fst d * i) (c + snd d * i) of Inl e \<Rightarrow> Inl e
         | Inr endpiece \<Rightarrow>
             (if endpiece = ''--'' then
                (case append_move moves (r, c) (r + fst d * i, c + snd d * i) b of
                   Inl e \<Rightarrow> Inl e
                 | Inr moves1 \<Rightarrow> slide_ray b enemyColor r c d is moves1)
              else
                (case py_str_index endpiece 0 of Inl e \<Rightarrow> Inl e
                 | Inr k \<Rightarrow>
                     (if k = enemyColor then
                        append_move moves (r, c) (r + fst d * i, c + snd d * i) b
                      else Inr moves))))
      else Inr moves)"

fun slide_dirs ::
    "board \<Rightarrow> string \<Rightarrow> int \<Rightarrow> int \<Rightarrow> (int \<times> int) list \<Rightarrow> Move list \<Rightarrow> error + Move list" where
  "slide_dirs b enemyColor r c [] moves = Inr moves"
| "slide_dirs b enemyColor r c (d # ds) moves =
     (case slide_ray b enemyColor r c d [1..7] moves of Inl e \<Rightarrow> Inl e
      | Inr moves1 \<Rightarrow> slide_dirs b enemyColor r c ds moves1)"

definition rook_directions :: "(int \<times> int) list" where
  "rook_directions = [(-1, 0), (0, -1), (1, 0), (0, 1)]"

definition bishop_directions :: "(int \<times> int) list" where
  "bishop_directions = [(-1, -1), (-1, 1), (1, -1), (1, 1)]"

definition getRookmoves :: "GameState \<Rightarrow> int \<Rightarrow> int \<Rightarrow> Move list \<Rightarrow> error + Move list" where
  "getRookmoves s r c moves =
     slide_dirs (board s) (if whiteToMove s then ''b'' else ''w'') r c rook_directions moves"

definition getBishopmoves :: "GameState \<Rightarrow> int \<Rightarrow> int \<Rightarrow> Move list \<Rightarrow> error + Move list" where
  "getBishopmoves s r c moves =
     slide_dirs (board s) (if whiteToMove s then ''b'' else ''w'') r c bishop_directions moves"

definition getQueenmoves :: "GameState \<Rightarrow> int \<Rightarrow> int \<Rightarrow> Move list \<Rightarrow> error + Move list" where
  "getQueenmoves s r c moves =
     (case getRookmoves s r c moves of Inl e \<Rightarrow> Inl e
      | Inr moves1 \<Rightarrow> getBishopmoves s r c moves1)"

subsection \<open>Knights and kings\<close>

text \<open>
  \<^verbatim>\<open>getKnightmoves\<close> and \<^verbatim>\<open>getKingmoves\<close> run the same loop body over eight offsets
  (the king's loop reads them by index \<^verbatim>\<open>range(8)\<close>, in the same order).
\<close>

fun offset_moves ::
    "board \<Rightarrow> string \<Rightarrow> int \<Rightarrow> int \<Rightarrow> (int \<times> int) list \<Rightarrow> Move list \<Rightarrow> error + Move list" where
  "offset_moves b allyColor r c [] moves = Inr moves"
| "offset_moves b allyColor r c (m # ms) moves =
     (if 0 \<le> r + fst m \<and> r + fst m < 8 \<and> 0 \<le> c + snd m \<and> c + snd m < 8 then
        (case cell_char b (r + fst m) (c + snd m) 0 of Inl e \<Rightarrow> Inl e
         | Inr k \<Rightarrow>
             (if k \<noteq> allyColor then
                (case append_move moves (r, c) (r + fst m, c + snd m) b of Inl e \<Rightarrow> Inl e
                 | Inr moves1 \<Rightarrow> offset_moves b allyColor r c ms moves1)
              else offset_moves b allyColor r c ms moves))
      else offset_moves b allyColor r c ms moves)"

definition knightmoves :: "(int \<times> int) list" where
  "knightmoves = [(-2, -1), (-2, 1), (-1, -2), (-1, 2), (1, -2), (1, 2), (2, -1), (2, 1)]"

definition kingmoves :: "(int \<times> int) list" where
  "kingmoves = [(-1, -1), (-1, 0), (-1, 1), (0, -1), (0, 1), (1, -1), (1, 0), (1, 1)]"

definition getKnightmoves :: "GameState \<Rightarrow> int \<Rightarrow> int \<Rightarrow> Move list \<Rightarrow> error + Move list" where
  "getKnightmoves s r c moves =
     offset_moves (board s) (if whiteToMove s then ''w'' else ''b'') r c knightmoves moves"

definition getKingmoves :: "GameState \<Rightarrow> int \<Rightarrow> int \<Rightarrow> Move list \<Rightarrow> error + Move list" where
  "getKingmoves s r c moves =
     offset_moves (board s) (if whiteToMove s then ''w'' else ''b'') r c kingmoves moves"

subsection \<open>All pseudo-legal moves of the side to move\<close>

text \<open>The dictionary \<^verbatim>\<open>self.moveFunctions\<close>, keyed by the piece letter.\<close>

definition moveFunctions ::
    "string \<rightharpoonup> (GameState \<Rightarrow> int \<Rightarrow> int \<Rightarrow> Move list \<Rightarrow> error + Move list)" where
  "moveFunctions =
     map_of [(''p'', getPawnmoves), (''R'', getRookmoves), (''N'', getKnightmoves),
             (''B'', getBishopmoves), (''Q'', getQueenmoves), (''K'', getKingmoves)]"

text \<open>The body of the two loops of \<^verbatim>\<open>getAllPossibleMoves\<close>, at one square.\<close>

definition visit_square :: "GameState \<Rightarrow> int \<Rightarrow> int \<Rightarrow> Move list \<Rightarrow> error + Move list" where
  "visit_square s r c moves =
     (case cell_char (board s) r c 0 of Inl e \<Rightarrow> Inl e
      | Inr turn \<Rightarrow>
          (if (turn = ''w'' \<and> whiteToMove s) \<or> (turn = ''b'' \<and> \<not> whiteToMove s) then
             (case cell_char (board s) r c 1 of Inl e \<Rightarrow> Inl e
              | Inr piece \<Rightarrow>
                  (case moveFunctions piece of None \<Rightarrow> Inl KeyError
                   | Some f \<Rightarrow> f s r c moves))
           else Inr moves))"

fun scan_cols :: "GameState \<Rightarrow> int \<Rightarrow> int list \<Rightarrow> Move list \<Rightarrow> error + Move list" where
  "scan_cols s r [] moves = Inr moves"
| "scan_cols s r (c # cs) moves =
     (case visit_square s r c moves of Inl e \<Rightarrow> Inl e
      | Inr moves1 \<Rightarrow> scan_cols s r cs moves1)"

fun scan_rows :: "GameState \<Rightarrow> int list \<Rightarrow> Move list \<Rightarrow> error + Move list" where
  "scan_rows s [] moves = Inr moves"
| "scan_rows s (r # rs) moves =
     (case py_index (board s) r of Inl e \<Rightarrow> Inl e
      | Inr row \<Rightarrow>
          (case scan_cols s r (py_range (length row)) moves of Inl e \<Rightarrow> Inl e
           | Inr moves1 \<Rightarrow> scan_rows s rs moves1))"

definition getAllPossibleMoves :: "GameState \<Rightarrow> error + Move list" where
  "getAllPossibleMoves s = scan_rows s (py_range (length (board s))) []"

section \<open>Check and the legality filter\<close>

text \<open>The \<^verbatim>\<open>for\<close> loop of \<^verbatim>\<open>squareUnderAttack\<close>, which returns at the first hit.\<close>

fun ends_at :: "Move list \<Rightarrow> int \<Rightarrow> int \<Rightarrow> bool" where
  "ends_at [] r c = False"
| "ends_at (move # oppMoves) r c =
     (if endRow move = r \<and> endCol move = c then True else ends_at oppMoves r c)"

text \<open>
  \<^verbatim>\<open>squareUnderAttack\<close> flips the turn flag, generates, and flips it back; the state it
  leaves is returned with its answer.
\<close>

definition squareUnderAttack :: "GameState \<Rightarrow> int \<Rightarrow> int \<Rightarrow> error + (bool \<times> GameState)" where
  "squareUnderAttack s r c =
     (let s1 = s\<lparr>whiteToMove := \<not> whiteToMove s\<rparr> in
      (case getAllPossibleMoves s1 of Inl e \<Rightarrow> Inl e
       | Inr oppMoves \<Rightarrow>
           (let s2 = s1\<lparr>whiteToMove := \<not> whiteToMove s1\<rparr> in
            Inr (ends_at oppMoves r c, s2))))"

definition inCheck :: "GameState \<Rightarrow> error + (bool \<times> GameState)" where
  "inCheck s =
     (if whiteToMove s then
        squareUnderAttack s (fst (whiteKingLocation s)) (snd (whiteKingLocation s))
      else
        squareUnderAttack s (fst (blackKingLocation s)) (snd (blackKingLocation s)))"

text \<open>
  One round of the loop of \<^verbatim>\<open>getValidMoves\<close> at index \<open>i\<close>, on the list \<open>moves\<close> as it
  is then, and the loop over \<^verbatim>\<open>range(len(moves)-1,-1,-1)\<close>, whose values are fixed when
  the loop starts.
\<close>

definition filter_step ::
    "int \<Rightarrow> Move list \<Rightarrow> GameState \<Rightarrow> error + (Move list \<times> GameState)" where
  "filter_step i moves s =
     (case py_index moves i of Inl e \<Rightarrow> Inl e
      | Inr mv \<Rightarrow>
     (case makeMove s mv of Inl e \<Rightarrow> Inl e
      | Inr s1 \<Rightarrow>
     (case inCheck (s1\<lparr>whiteToMove := \<not> whiteToMove s1\<rparr>) of Inl e \<Rightarrow> Inl e
      | Inr (chk, s2) \<Rightarrow>
     (case (if chk then
              (case py_index moves i of Inl e \<Rightarrow> Inl e | Inr x \<Rightarrow> list_remove moves x)
            else Inr moves) of Inl e \<Rightarrow> Inl e
      | Inr moves1 \<Rightarrow>
     (case undoMove (s2\<lparr>whiteToMove := \<not> whiteToMove s2\<rparr>) of Inl e \<Rightarrow> Inl e
      | Inr s3 \<Rightarrow> Inr (moves1, s3))))))"

fun filter_loop ::
    "int list \<Rightarrow> Move list \<Rightarrow> GameState \<Rightarrow> error + (Move list \<times> GameState)" where
  "filter_loop [] moves s = Inr (moves, s)"
| "filter_loop (i # is) moves s =
     (case filter_step i moves s of Inl e \<Rightarrow> Inl e
      | Inr (moves1, s1) \<Rightarrow> filter_loop is moves1 s1)"

definition getValidMoves :: "GameState \<Rightarrow> error + (Move list \<times> GameState)" where
  "getValidMoves s =
     (case getAllPossibleMoves s of Inl e \<Rightarrow> Inl e
      | Inr moves0 \<Rightarrow>
     (case filter_loop (rev (py_range (length moves0))) moves0 s of Inl e \<Rightarrow> Inl e
      | Inr (moves, s1) \<Rightarrow>
          (if length moves = 0 then
             (case inCheck s1 of Inl e \<Rightarrow> Inl e
              | Inr (chk, s2) \<Rightarrow>
                  (if chk then Inr (moves, s2\<lparr>checkMate := True\<rparr>)
                   else Inr (moves, s2\<lparr>staleMate := True\<rparr>)))
           else Inr (moves, s1\<lparr>checkMate := False, staleMate := False\<rparr>))))"

section \<open>The caller's side\<close>

text \<open>
  The presentation layer builds a move from two squares of the live board and applies it.
  \<open>play\<close> does this along a list of square pairs. \<open>legal_turn\<close> is a turn of legal
  play: the caller asks for the legal moves, and applies the move only if the list
  holds it.
\<close>

fun play :: "GameState \<Rightarrow> ((int \<times> int) \<times> (int \<times> int)) list \<Rightarrow> error + GameState" where
  "play s [] = Inr s"
| "play s (sq # sqs) =
     (case Move_init (fst sq) (snd sq) (board s) of Inl e \<Rightarrow> Inl e
      | Inr m \<Rightarrow> (case makeMove s m of Inl e \<Rightarrow> Inl e | Inr s1 \<Rightarrow> play s1 sqs))"

definition legal_turn :: "GameState \<Rightarrow> (int \<times> int) \<times> (int \<times> int) \<Rightarrow> GameState option" where
  "legal_turn s sq =
     (case getValidMoves s of Inl e \<Rightarrow> None
      | Inr (moves, s1) \<Rightarrow>
          (case Move_init (fst sq) (snd sq) (board s1) of Inl e \<Rightarrow> None
           | Inr m \<Rightarrow>
               (if List.member moves m then
                  (case makeMove s1 m of Inl e \<Rightarrow> None | Inr s2 \<Rightarrow> Some s2)
                else None)))"

fun legal_play :: "GameState \<Rightarrow> ((int \<times> int) \<times> (int \<times> int)) list \<Rightarrow> GameState option" where
  "legal_play s [] = Some s"
| "legal_play s (sq # sqs) =
     (case legal_turn s sq of None \<Rightarrow> None | Some s1 \<Rightarrow> legal_play s1 sqs)"

text \<open>
  Whether the king of the side that has just moved is attacked, read off the board alone:
  the squares that hold that king, and the destinations of the pseudo-legal moves of the
  side now to move. The cached king squares are not used.
\<close>

definition squares_of :: "board \<Rightarrow> string \<Rightarrow> (int \<times> int) list" where
  "squares_of b p =
     concat (map (\<lambda>r. map (\<lambda>c. (r, c))
                          (filter (\<lambda>c. b ! nat r ! nat c = p) (py_range (length (b ! nat r)))))
                 (py_range (length b)))"

definition mover_king_attacked :: "GameState \<Rightarrow> error + bool" where
  "mover_king_attacked s =
     (case getAllPossibleMoves s of Inl e \<Rightarrow> Inl e
      | Inr oppMoves \<Rightarrow>
          Inr (list_ex (\<lambda>sq. ends_at oppMoves (fst sq) (snd sq))
                       (squares_of (board s) (if whiteToMove s then ''bK'' else ''wK''))))"

section \<open>Notions used in the statements\<close>

text \<open>An index a list of length \<open>n\<close> accepts, and the position it denotes.\<close>

definition valid_ix :: "nat \<Rightarrow> int \<Rightarrow> bool" where
  "valid_ix n i = (- int n \<le> i \<and> i < int n)"

definition ix :: "nat \<Rightarrow> int \<Rightarrow> nat" where
  "ix n i = nat (py_norm n i)"

definition row_of :: "board \<Rightarrow> int \<Rightarrow> nat" where
  "row_of b r = ix (length b) r"

definition col_of :: "board \<Rightarrow> int \<Rightarrow> int \<Rightarrow> nat" where
  "col_of b r c = ix (length (b ! row_of b r)) c"

definition valid_sq :: "board \<Rightarrow> int \<Rightarrow> int \<Rightarrow> bool" where
  "valid_sq b r c = (valid_ix (length b) r \<and> valid_ix (length (b ! row_of b r)) c)"

definition upd :: "board \<Rightarrow> nat \<Rightarrow> nat \<Rightarrow> string \<Rightarrow> board" where
  "upd b i j v = b[i := (b ! i)[j := v]]"

text \<open>A board of eight rows of eight two-character strings, and a square on it.\<close>

definition wf_board :: "board \<Rightarrow> bool" where
  "wf_board b =
     (length b = 8 \<and> list_all (\<lambda>row. length row = 8 \<and> list_all (\<lambda>p. length p = 2) row) b)"

definition on_board :: "int \<times> int \<Rightarrow> bool" where
  "on_board sq = (0 \<le> fst sq \<and> fst sq < 8 \<and> 0 \<le> snd sq \<and> snd sq < 8)"

text \<open>The record with the fields that \<open>Move_init\<close> computes.\<close>

definition move_rec :: "int \<Rightarrow> int \<Rightarrow> int \<Rightarrow> int \<Rightarrow> string \<Rightarrow> string \<Rightarrow> Move" where
  "move_rec r c r' c' pm pc =
     \<lparr>startRow = r, startCol = c, endRow = r', endCol = c',
      pieceMoved = pm, pieceCaptured = pc,
      moveID = r * 1000 + c * 100 + r' * 10 + c'\<rparr>"

definition move_at :: "board \<Rightarrow> int \<times> int \<Rightarrow> int \<times> int \<Rightarrow> Move" where
  "move_at b a e =
     move_rec (fst a) (snd a) (fst e) (snd e)
       (b ! row_of b (fst a) ! col_of b (fst a) (snd a))
       (b ! row_of b (fst e) ! col_of b (fst e) (snd e))"

text \<open>
  A move record agrees with a board: its squares exist and its two pieces are the ones
  standing there, as in every record that \<open>Move_init\<close> builds on that board.
\<close>

definition built_on :: "board \<Rightarrow> Move \<Rightarrow> bool" where
  "built_on b m =
     (valid_sq b (startRow m) (startCol m) \<and> valid_sq b (endRow m) (endCol m) \<and>
      pieceMoved m = b ! row_of b (startRow m) ! col_of b (startRow m) (startCol m) \<and>
      pieceCaptured m = b ! row_of b (endRow m) ! col_of b (endRow m) (endCol m))"

definition extends :: "board \<Rightarrow> Move list \<Rightarrow> Move list \<Rightarrow> bool" where
  "extends b moves moves' = (\<exists>new. moves' = moves @ new \<and> list_all (built_on b) new)"

text \<open>The destinations of a list of moves.\<close>

definition dests :: "Move list \<Rightarrow> (int \<times> int) set" where
  "dests moves = (\<lambda>m. (endRow m, endCol m)) ` set moves"

text \<open>
  The square at distance \<open>i\<close> from \<open>(r, c)\<close> in direction \<open>d\<close>, and the first occupied
  square of a ray: it is on the board, it is not empty, and every square before it is
  empty.
\<close>

definition ray_sq :: "int \<Rightarrow> int \<Rightarrow> int \<times> int \<Rightarrow> int \<Rightarrow> int \<times> int" where
  "ray_sq r c d i = (r + fst d * i, c + snd d * i)"

definition piece_at :: "board \<Rightarrow> int \<times> int \<Rightarrow> string" where
  "piece_at b sq = b ! nat (fst sq) ! nat (snd sq)"

definition first_occupied :: "board \<Rightarrow> int \<Rightarrow> int \<Rightarrow> int \<times> int \<Rightarrow> int \<Rightarrow> bool" where
  "first_occupied b r c d k =
     (1 \<le> k \<and> on_board (ray_sq r c d k) \<and> piece_at b (ray_sq r c d k) \<noteq> ''--'' \<and>
      (\<forall>j. 1 \<le> j \<and> j < k \<longrightarrow> piece_at b (ray_sq r c d j) = ''--''))"

text \<open>What the loop \<open>slide_ray\<close> appends on a well-formed board.\<close>

fun ray_moves :: "board \<Rightarrow> string \<Rightarrow> int \<Rightarrow> int \<Rightarrow> int \<times> int \<Rightarrow> int list \<Rightarrow> Move list" where
  "ray_moves b enemyColor r c d [] = []"
| "ray_moves b enemyColor r c d (i # is) =
     (if on_board (ray_sq r c d i) then
        (if piece_at b (ray_sq r c d i) = ''--'' then
           move_at b (r, c) (ray_sq r c d i) # ray_moves b enemyColor r c d is
         else if [piece_at b (ray_sq r c d i) ! 0] = enemyColor then
           [move_at b (r, c) (ray_sq r c d i)]
         else [])
      else [])"

section \<open>Positions\<close>

text \<open>After 1. e4.\<close>

definition pos_e4 :: GameState where
  "pos_e4 =
     \<lparr>board =
        [[''bR'', ''bN'', ''bB'', ''bQ'', ''bK'', ''bB'', ''bN'', ''bR''],
         [''bp'', ''bp'', ''bp'', ''bp'', ''bp'', ''bp'', ''bp'', ''bp''],
         [''--'', ''--'', ''--'', ''--'', ''--'', ''--'', ''--'', ''--''],
         [''--'', ''--'', ''--'', ''--'', ''--'', ''--'', ''--'', ''--''],
         [''--'', ''--'', ''--'', ''--'', ''wp'', ''--'', ''--'', ''--''],
         [''--'', ''--'', ''--'', ''--'', ''--'', ''--'', ''--'', ''--''],
         [''wp'', ''wp'', ''wp'', ''wp'', ''--'', ''wp'', ''wp'', ''wp''],
         [''wR'', ''wN'', ''wB'', ''wQ'', ''wK'', ''wB'', ''wN'', ''wR'']],
      whiteToMove = False,
      moveLog =
        [move_rec 6 4 4 4 ''wp'' ''--''],
      whiteKingLocation = (7, 4), blackKingLocation = (0, 4),
      checkMate = False, staleMate = False\<rparr>"

text \<open>After 1. e4 d5.\<close>

definition pos_e4_d5 :: GameState where
  "pos_e4_d5 =
     \<lparr>board =
        [[''bR'', ''bN'', ''bB'', ''bQ'', ''bK'', ''bB'', ''bN'', ''bR''],
         [''bp'', ''bp'', ''bp'', ''--'', ''bp'', ''bp'', ''bp'', ''bp''],
         [''--'', ''--'', ''--'', ''--'', ''--'', ''--'', ''--'', ''--''],
         [''--'', ''--'', ''--'', ''bp'', ''--'', ''--'', ''--'', ''--''],
         [''--'', ''--'', ''--'', ''--'', ''wp'', ''--'', ''--'', ''--''],
         [''--'', ''--'', ''--'', ''--'', ''--'', ''--'', ''--'', ''--''],
         [''wp'', ''wp'', ''wp'', ''wp'', ''--'', ''wp'', ''wp'', ''wp''],
         [''wR'', ''wN'', ''wB'', ''wQ'', ''wK'', ''wB'', ''wN'', ''wR'']],
      whiteToMove = True,
      moveLog =
        [move_rec 6 4 4 4 ''wp'' ''--'',
         move_rec 1 3 3 3 ''bp'' ''--''],
      whiteKingLocation = (7, 4), blackKingLocation = (0, 4),
      checkMate = False, staleMate = False\<rparr>"

text \<open>After 1. e4 d5 2. Ke2: the white king stands on e2, row 6, column 4.\<close>

definition pos_Ke2 :: GameState where
  "pos_Ke2 =
     \<lparr>board =
        [[''bR'', ''bN'', ''bB'', ''bQ'', ''bK'', ''bB'', ''bN'', ''bR''],
         [''bp'', ''bp'', ''bp'', ''--'', ''bp'', ''bp'', ''bp'', ''bp''],
         [''--'', ''--'', ''--'', ''--'', ''--'', ''--'', ''--'', ''--''],
         [''--'', ''--'', ''--'', ''bp'', ''--'', ''--'', ''--'', ''--''],
         [''--'', ''--'', ''--'', ''--'', ''wp'', ''--'', ''--'', ''--''],
         [''--'', ''--'', ''--'', ''--'', ''--'', ''--'', ''--'', ''--''],
         [''wp'', ''wp'', ''wp'', ''wp'', ''wK'', ''wp'', ''wp'', ''wp''],
         [''wR'', ''wN'', ''wB'', ''wQ'', ''--'', ''wB'', ''wN'', ''wR'']],
      whiteToMove = False,
      moveLog =
        [move_rec 6 4 4 4 ''wp'' ''--'',
         move_rec 1 3 3 3 ''bp'' ''--'',
         move_rec 7 4 6 4 ''wK'' ''--''],
      whiteKingLocation = (7, 4), blackKingLocation = (0, 4),
      checkMate = False, staleMate = False\<rparr>"

text \<open>After 1. e4 d5 2. Ke2 Bg4+: the bishop on g4 gives check along g4, f3, e2.\<close>

definition pos_Bg4 :: GameState where
  "pos_Bg4 =
     \<lparr>board =
        [[''bR'', ''bN'', ''--'', ''bQ'', ''bK'', ''bB'', ''bN'', ''bR''],
         [''bp'', ''bp'', ''bp'', ''--'', ''bp'', ''bp'', ''bp'', ''bp''],
         [''--'', ''--'', ''--'', ''--'', ''--'', ''--'', ''--'', ''--''],
         [''--'', ''--'', ''--'', ''bp'', ''--'', ''--'', ''--'', ''--''],
         [''--'', ''--'', ''--'', ''--'', ''wp'', ''--'', ''bB'', ''--''],
         [''--'', ''--'', ''--'', ''--'', ''--'', ''--'', ''--'', ''--''],
         [''wp'', ''wp'', ''wp'', ''wp'', ''wK'', ''wp'', ''wp'', ''wp''],
         [''wR'', ''wN'', ''wB'', ''wQ'', ''--'', ''wB'', ''wN'', ''wR'']],
      whiteToMove = True,
      moveLog =
        [move_rec 6 4 4 4 ''wp'' ''--'',
         move_rec 1 3 3 3 ''bp'' ''--'',
         move_rec 7 4 6 4 ''wK'' ''--'',
         move_rec 0 2 4 6 ''bB'' ''--''],
      whiteKingLocation = (7, 4), blackKingLocation = (0, 4),
      checkMate = False, staleMate = False\<rparr>"

text \<open>After 1. e4 d5 2. Ke2 Bg4+ 3. a3: the check has not been answered.\<close>

definition pos_a3 :: GameState where
  "pos_a3 =
     \<lparr>board =
        [[''bR'', ''bN'', ''--'', ''bQ'', ''bK'', ''bB'', ''bN'', ''bR''],
         [''bp'', ''bp'', ''bp'', ''--'', ''bp'', ''bp'', ''bp'', ''bp''],
         [''--'', ''--'', ''--'', ''--'', ''--'', ''--'', ''--'', ''--''],
         [''--'', ''--'', ''--'', ''bp'', ''--'', ''--'', ''--'', ''--''],
         [''--'', ''--'', ''--'', ''--'', ''wp'', ''--'', ''bB'', ''--''],
         [''wp'', ''--'', ''--'', ''--'', ''--'', ''--'', ''--'', ''--''],
         [''--'', ''wp'', ''wp'', ''wp'', ''wK'', ''wp'', ''wp'', ''wp''],
         [''wR'', ''wN'', ''wB'', ''wQ'', ''--'', ''wB'', ''wN'', ''wR'']],
      whiteToMove = False,
      moveLog =
        [move_rec 6 4 4 4 ''wp'' ''--'',
         move_rec 1 3 3 3 ''bp'' ''--'',
         move_rec 7 4 6 4 ''wK'' ''--'',
         move_rec 0 2 4 6 ''bB'' ''--'',
         move_rec 6 0 5 0 ''wp'' ''--''],
      whiteKingLocation = (7, 4), blackKingLocation = (0, 4),
      checkMate = False, staleMate = False\<rparr>"

text \<open>After 1. a4 d5 2. a5 d4 3. a6 d3 4. axb7 dxc2 5. bxc8 cxb1: a white pawn stands on c8 (row 0) and a black pawn on b1 (row 7); white is to move.\<close>

definition pos_last_rank :: GameState where
  "pos_last_rank =
     \<lparr>board =
        [[''bR'', ''bN'', ''wp'', ''bQ'', ''bK'', ''bB'', ''bN'', ''bR''],
         [''bp'', ''--'', ''bp'', ''--'', ''bp'', ''bp'', ''bp'', ''bp''],
         [''--'', ''--'', ''--'', ''--'', ''--'', ''--'', ''--'', ''--''],
         [''--'', ''--'', ''--'', ''--'', ''--'', ''--'', ''--'', ''--''],
         [''--'', ''--'', ''--'', ''--'', ''--'', ''--'', ''--'', ''--''],
         [''--'', ''--'', ''--'', ''--'', ''--'', ''--'', ''--'', ''--''],
         [''--'', ''wp'', ''--'', ''wp'', ''wp'', ''wp'', ''wp'', ''wp''],
         [''wR'', ''bp'', ''wB'', ''wQ'', ''wK'', ''wB'', ''wN'', ''wR'']],
      whiteToMove = True,
      moveLog =
        [move_rec 6 0 4 0 ''wp'' ''--'',
         move_rec 1 3 3 3 ''bp'' ''--'',
         move_rec 4 0 3 0 ''wp'' ''--'',
         move_rec 3 3 4 3 ''bp'' ''--'',
         move_rec 3 0 2 0 ''wp'' ''--'',
         move_rec 4 3 5 3 ''bp'' ''--'',
         move_rec 2 0 1 1 ''wp'' ''bp'',
         move_rec 5 3 6 2 ''bp'' ''wp'',
         move_rec 1 1 0 2 ''wp'' ''bB'',
         move_rec 6 2 7 1 ''bp'' ''wN''],
      whiteKingLocation = (7, 4), blackKingLocation = (0, 4),
      checkMate = False, staleMate = False\<rparr>"

text \<open>The same position after the knight move g1-h3 has been applied: what the first round of the loop of \<open>getValidMoves\<close> has made of \<open>pos_last_rank\<close> when its check test starts.\<close>

definition pos_Nh3 :: GameState where
  "pos_Nh3 =
     \<lparr>board =
        [[''bR'', ''bN'', ''wp'', ''bQ'', ''bK'', ''bB'', ''bN'', ''bR''],
         [''bp'', ''--'', ''bp'', ''--'', ''bp'', ''bp'', ''bp'', ''bp''],
         [''--'', ''--'', ''--'', ''--'', ''--'', ''--'', ''--'', ''--''],
         [''--'', ''--'', ''--'', ''--'', ''--'', ''--'', ''--'', ''--''],
         [''--'', ''--'', ''--'', ''--'', ''--'', ''--'', ''--'', ''--''],
         [''--'', ''--'', ''--'', ''--'', ''--'', ''--'', ''--'', ''wN''],
         [''--'', ''wp'', ''--'', ''wp'', ''wp'', ''wp'', ''wp'', ''wp''],
         [''wR'', ''bp'', ''wB'', ''wQ'', ''wK'', ''wB'', ''--'', ''wR'']],
      whiteToMove = False,
      moveLog =
        [move_rec 6 0 4 0 ''wp'' ''--'',
         move_rec 1 3 3 3 ''bp'' ''--'',
         move_rec 4 0 3 0 ''wp'' ''--'',
         move_rec 3 3 4 3 ''bp'' ''--'',
         move_rec 3 0 2 0 ''wp'' ''--'',
         move_rec 4 3 5 3 ''bp'' ''--'',
         move_rec 2 0 1 1 ''wp'' ''bp'',
         move_rec 5 3 6 2 ''bp'' ''wp'',
         move_rec 1 1 0 2 ''wp'' ''bB'',
         move_rec 6 2 7 1 ''bp'' ''wN'',
         move_rec 7 6 5 7 ''wN'' ''--''],
      whiteKingLocation = (7, 4), blackKingLocation = (0, 4),
      checkMate = False, staleMate = False\<rparr>"

text \<open>After 1. e4 Nh6 2. Bc4 Nf5 3. Ke2 Nh4 4. a3 Nxg2: the black knight on g2 attacks e1 = (7, 4); the white king stands on e2 = (6, 4) and white is to move.\<close>

definition pos_Nxg2 :: GameState where
  "pos_Nxg2 =
     \<lparr>board =
        [[''bR'', ''bN'', ''bB'', ''bQ'', ''bK'', ''bB'', ''--'', ''bR''],
         [''bp'', ''bp'', ''bp'', ''bp'', ''bp'', ''bp'', ''bp'', ''bp''],
         [''--'', ''--'', ''--'', ''--'', ''--'', ''--'', ''--'', ''--''],
         [''--'', ''--'', ''--'', ''--'', ''--'', ''--'', ''--'', ''--''],
         [''--'', ''--'', ''wB'', ''--'', ''wp'', ''--'', ''--'', ''--''],
         [''wp'', ''--'', ''--'', ''--'', ''--'', ''--'', ''--'', ''--''],
         [''--'', ''wp'', ''wp'', ''wp'', ''wK'', ''wp'', ''bN'', ''wp''],
         [''wR'', ''wN'', ''wB'', ''wQ'', ''--'', ''--'', ''wN'', ''wR'']],
      whiteToMove = True,
      moveLog =
        [move_rec 6 4 4 4 ''wp'' ''--'',
         move_rec 0 6 2 7 ''bN'' ''--'',
         move_rec 7 5 4 2 ''wB'' ''--'',
         move_rec 2 7 3 5 ''bN'' ''--'',
         move_rec 7 4 6 4 ''wK'' ''--'',
         move_rec 3 5 4 7 ''bN'' ''--'',
         move_rec 6 0 5 0 ''wp'' ''--'',
         move_rec 4 7 6 6 ''bN'' ''wp''],
      whiteKingLocation = (7, 4), blackKingLocation = (0, 4),
      checkMate = False, staleMate = False\<rparr>"

text \<open>The twenty moves of the starting position, in the order of the scan.\<close>

definition start_moves :: "Move list" where
  "start_moves =
     [move_rec 6 0 5 0 ''wp'' ''--'', move_rec 6 0 4 0 ''wp'' ''--'',
      move_rec 6 1 5 1 ''wp'' ''--'', move_rec 6 1 4 1 ''wp'' ''--'',
      move_rec 6 2 5 2 ''wp'' ''--'', move_rec 6 2 4 2 ''wp'' ''--'',
      move_rec 6 3 5 3 ''wp'' ''--'', move_rec 6 3 4 3 ''wp'' ''--'',
      move_rec 6 4 5 4 ''wp'' ''--'', move_rec 6 4 4 4 ''wp'' ''--'',
      move_rec 6 5 5 5 ''wp'' ''--'', move_rec 6 5 4 5 ''wp'' ''--'',
      move_rec 6 6 5 6 ''wp'' ''--'', move_rec 6 6 4 6 ''wp'' ''--'',
      move_rec 6 7 5 7 ''wp'' ''--'', move_rec 6 7 4 7 ''wp'' ''--'',
      move_rec 7 1 5 0 ''wN'' ''--'', move_rec 7 1 5 2 ''wN'' ''--'',
      move_rec 7 6 5 5 ''wN'' ''--'', move_rec 7 6 5 7 ''wN'' ''--'']"

section \<open>Properties\<close>

subsection \<open>Subscripts, cells and move records\<close>

lemma ix_less: "valid_ix n i \<Longrightarrow> ix n i < n"
  by (auto simp: valid_ix_def ix_def py_norm_def)

lemma py_index_eq:
  "py_index xs i = (if valid_ix (length xs) i then Inr (xs ! ix (length xs) i) else Inl IndexError)"
  by (auto simp: py_index_def valid_ix_def ix_def py_norm_def Let_def)

lemma py_setitem_eq:
  "py_setitem xs i v =
     (if valid_ix (length xs) i then Inr (xs[ix (length xs) i := v]) else Inl IndexError)"
  by (auto simp: py_setitem_def valid_ix_def ix_def py_norm_def Let_def)

lemma py_str_index_eq:
  "py_str_index p i = (if valid_ix (length p) i then Inr [p ! ix (length p) i] else Inl IndexError)"
  by (simp add: py_str_index_def py_index_eq)

lemma cell_eq:
  "cell b r c = (if valid_sq b r c then Inr (b ! row_of b r ! col_of b r c) else Inl IndexError)"
  by (simp add: cell_def valid_sq_def row_of_def col_of_def py_index_eq)

lemma cell_char_eq:
  "cell_char b r c k =
     (if valid_sq b r c then py_str_index (b ! row_of b r ! col_of b r c) k else Inl IndexError)"
  by (simp add: cell_char_def cell_eq)

lemma cell_set_eq:
  "cell_set b r c v =
     (if valid_sq b r c then Inr (upd b (row_of b r) (col_of b r c) v) else Inl IndexError)"
  by (simp add: cell_set_def valid_sq_def row_of_def col_of_def upd_def ix_def
                py_index_eq py_setitem_eq)

lemma length_upd [simp]: "length (upd b i j v) = length b"
  by (simp add: upd_def)

lemma length_upd_row [simp]: "length (upd b i j v ! k) = length (b ! k)"
  by (cases "i < length b") (auto simp: upd_def nth_list_update list_update_beyond)

lemma row_of_upd [simp]: "row_of (upd b i j v) r = row_of b r"
  by (simp add: row_of_def)

lemma col_of_upd [simp]: "col_of (upd b i j v) r c = col_of b r c"
  by (simp add: col_of_def)

lemma valid_sq_upd [simp]: "valid_sq (upd b i j v) r c = valid_sq b r c"
  by (simp add: valid_sq_def)

lemma row_of_less: "valid_sq b r c \<Longrightarrow> row_of b r < length b"
  by (simp add: valid_sq_def row_of_def ix_less)

lemma col_of_less: "valid_sq b r c \<Longrightarrow> col_of b r c < length (b ! row_of b r)"
  by (simp add: valid_sq_def col_of_def ix_less)

lemma upd_nth:
  "i < length b \<Longrightarrow> j < length (b ! i) \<Longrightarrow> k < length b \<Longrightarrow> l < length (b ! k) \<Longrightarrow>
   upd b i j v ! k ! l = (if k = i \<and> l = j then v else b ! k ! l)"
  by (auto simp: upd_def nth_list_update)

lemma board_eqI:
  assumes "length b' = length b"
      and "\<And>k. k < length b \<Longrightarrow> length (b' ! k) = length (b ! k)"
      and "\<And>k l. k < length b \<Longrightarrow> l < length (b ! k) \<Longrightarrow> b' ! k ! l = b ! k ! l"
  shows "b' = (b :: board)"
  using assms by (auto intro!: nth_equalityI)

text \<open>
  Clearing a square, filling a second one with the piece of the first, and then writing
  the two old pieces back gives the old board, also when the two squares coincide.
\<close>

lemma upd_roundtrip:
  assumes "i < length b" "j < length (b ! i)" "k < length b" "l < length (b ! k)"
  shows "upd (upd (upd (upd b i j e) k l (b ! i ! j)) i j (b ! i ! j)) k l (b ! k ! l) = b"
proof (rule board_eqI)
  show "length (upd (upd (upd (upd b i j e) k l (b ! i ! j)) i j (b ! i ! j)) k l (b ! k ! l))
        = length b"
    by simp
next
  fix n assume "n < length b"
  show "length (upd (upd (upd (upd b i j e) k l (b ! i ! j)) i j (b ! i ! j)) k l (b ! k ! l) ! n)
        = length (b ! n)"
    by simp
next
  fix n q assume "n < length b" "q < length (b ! n)"
  with assms
  show "upd (upd (upd (upd b i j e) k l (b ! i ! j)) i j (b ! i ! j)) k l (b ! k ! l) ! n ! q
        = b ! n ! q"
    by (simp add: upd_nth)
qed

lemma Move_init_eq:
  "Move_init a e b =
     (if valid_sq b (fst a) (snd a) \<and> valid_sq b (fst e) (snd e) then Inr (move_at b a e)
      else Inl IndexError)"
  by (simp add: Move_init_def cell_eq move_at_def move_rec_def)

lemma move_at_fields [simp]:
  "startRow (move_at b a e) = fst a" "startCol (move_at b a e) = snd a"
  "endRow (move_at b a e) = fst e" "endCol (move_at b a e) = snd e"
  "pieceMoved (move_at b a e) = b ! row_of b (fst a) ! col_of b (fst a) (snd a)"
  "pieceCaptured (move_at b a e) = b ! row_of b (fst e) ! col_of b (fst e) (snd e)"
  "moveID (move_at b a e) = fst a * 1000 + snd a * 100 + fst e * 10 + snd e"
  by (simp_all add: move_at_def move_rec_def)

text \<open>Four digits below eight determine the number they write in base ten.\<close>

lemma digits4_inject:
  fixes a b c d a' b' c' d' :: int
  assumes "0 \<le> a" "a < 8" "0 \<le> b" "b < 8" "0 \<le> c" "c < 8" "0 \<le> d" "d < 8"
      and "0 \<le> a'" "a' < 8" "0 \<le> b'" "b' < 8" "0 \<le> c'" "c' < 8" "0 \<le> d'" "d' < 8"
      and eq: "a * 1000 + b * 100 + c * 10 + d = a' * 1000 + b' * 100 + c' * 10 + d'"
  shows "a = a' \<and> b = b' \<and> c = c' \<and> d = d'"
proof -
  have a: "a = a'" using assms by linarith
  have b: "b = b'" using assms a by linarith
  have c: "c = c'" using assms a b by linarith
  have d: "d = d'" using assms a b c by linarith
  from a b c d show ?thesis by simp
qed

lemma Move_init_built_on: "Move_init a e b = Inr m \<Longrightarrow> built_on b m"
  by (auto simp: built_on_def Move_init_eq split: if_splits)

subsection \<open>makeMove and undoMove\<close>

text \<open>
  On a normal return \<open>makeMove\<close> has changed the board, the log and the turn flag and
  nothing else: the king tests never succeed, since a string of one character is not a
  string of two.
\<close>

lemma makeMove_Inr_iff:
  "makeMove s m = Inr s1 \<longleftrightarrow>
     valid_sq (board s) (startRow m) (startCol m) \<and>
     valid_sq (board s) (endRow m) (endCol m) \<and>
     valid_ix (length (pieceMoved m)) 1 \<and>
     s1 = s\<lparr>board := upd (upd (board s) (row_of (board s) (startRow m))
                                 (col_of (board s) (startRow m) (startCol m)) ''--'')
                            (row_of (board s) (endRow m))
                            (col_of (board s) (endRow m) (endCol m)) (pieceMoved m),
            moveLog := moveLog s @ [m],
            whiteToMove := \<not> whiteToMove s\<rparr>"
  by (auto simp: makeMove_def cell_set_eq py_str_index_eq split: if_splits)

lemma undoMove_Inr_iff:
  "moveLog s = ms @ [m] \<Longrightarrow>
   undoMove s = Inr s1 \<longleftrightarrow>
     valid_sq (board s) (startRow m) (startCol m) \<and>
     valid_sq (board s) (endRow m) (endCol m) \<and>
     valid_ix (length (pieceMoved m)) 1 \<and>
     s1 = s\<lparr>board := upd (upd (board s) (row_of (board s) (startRow m))
                                 (col_of (board s) (startRow m) (startCol m)) (pieceMoved m))
                            (row_of (board s) (endRow m))
                            (col_of (board s) (endRow m) (endCol m)) (pieceCaptured m),
            moveLog := ms,
            whiteToMove := \<not> whiteToMove s\<rparr>"
  by (auto simp: undoMove_def Let_def cell_set_eq py_str_index_eq split: if_splits)

lemma makeMove_kings:
  "makeMove s m = Inr s1 \<Longrightarrow>
   whiteKingLocation s1 = whiteKingLocation s \<and> blackKingLocation s1 = blackKingLocation s"
  by (auto simp: makeMove_Inr_iff)

lemma makeMove_flags:
  "makeMove s m = Inr s1 \<Longrightarrow> checkMate s1 = checkMate s \<and> staleMate s1 = staleMate s"
  by (auto simp: makeMove_Inr_iff)

lemma undoMove_flags:
  "undoMove s = Inr s1 \<Longrightarrow> checkMate s1 = checkMate s \<and> staleMate s1 = staleMate s"
  by (auto simp: undoMove_def Let_def split: if_splits sum.splits)

lemma makeMove_undoMove:
  assumes "built_on (board s) m" and "makeMove s m = Inr s1"
  shows "undoMove s1 = Inr s"
proof -
  let ?b = "board s"
  let ?i = "row_of ?b (startRow m)" and ?j = "col_of ?b (startRow m) (startCol m)"
  let ?k = "row_of ?b (endRow m)" and ?l = "col_of ?b (endRow m) (endCol m)"
  from assms(1)
  have v: "valid_sq ?b (startRow m) (startCol m)" "valid_sq ?b (endRow m) (endCol m)"
    and pm: "pieceMoved m = ?b ! ?i ! ?j" and pc: "pieceCaptured m = ?b ! ?k ! ?l"
    by (auto simp: built_on_def)
  from assms(2)
  have s1: "s1 = s\<lparr>board := upd (upd ?b ?i ?j ''--'') ?k ?l (pieceMoved m),
                    moveLog := moveLog s @ [m], whiteToMove := \<not> whiteToMove s\<rparr>"
    and k: "valid_ix (length (pieceMoved m)) 1"
    by (auto simp: makeMove_Inr_iff)
  have log: "moveLog s1 = moveLog s @ [m]"
    by (simp add: s1)
  have rt: "upd (upd (upd (upd ?b ?i ?j ''--'') ?k ?l (?b ! ?i ! ?j)) ?i ?j (?b ! ?i ! ?j))
                ?k ?l (?b ! ?k ! ?l) = ?b"
    using v by (intro upd_roundtrip row_of_less col_of_less)
  show ?thesis
    unfolding undoMove_Inr_iff [OF log]
    using v k rt by (simp add: s1 pm pc)
qed

subsection \<open>Well-formed boards\<close>

lemma wf_board_nth:
  "wf_board b \<Longrightarrow> i < 8 \<Longrightarrow> j < 8 \<Longrightarrow>
   length b = 8 \<and> length (b ! i) = 8 \<and> length (b ! i ! j) = 2"
  by (auto simp: wf_board_def list_all_length)

lemma wf_valid_sq_piece:
  assumes "wf_board b" and "valid_sq b r c"
  shows "length (b ! row_of b r ! col_of b r c) = 2"
proof -
  from assms have i: "row_of b r < 8"
    using row_of_less [OF assms(2)] by (simp add: wf_board_def)
  with assms have "length (b ! row_of b r) = 8"
    by (simp add: wf_board_nth)
  with col_of_less [OF assms(2)] have "col_of b r c < 8"
    by simp
  with i assms(1) show ?thesis
    by (simp add: wf_board_nth)
qed

lemma wf_on_board:
  assumes "wf_board b" and "on_board (r, c)"
  shows "valid_sq b r c" and "row_of b r = nat r" and "col_of b r c = nat c"
    and "b ! row_of b r ! col_of b r c = piece_at b (r, c)"
    and "length (piece_at b (r, c)) = 2"
proof -
  from assms(2) have rc: "0 \<le> r" "r < 8" "0 \<le> c" "c < 8"
    by (auto simp: on_board_def)
  then have n: "nat r < 8" "nat c < 8"
    by auto
  from assms(1) n have len: "length b = 8" "length (b ! nat r) = 8" "length (b ! nat r ! nat c) = 2"
    by (auto dest: wf_board_nth)
  from rc len show r: "row_of b r = nat r"
    by (simp add: row_of_def ix_def py_norm_def)
  from rc len r show c: "col_of b r c = nat c"
    by (simp add: col_of_def ix_def py_norm_def)
  from rc len r show "valid_sq b r c"
    by (simp add: valid_sq_def valid_ix_def)
  from r c show "b ! row_of b r ! col_of b r c = piece_at b (r, c)"
    by (simp add: piece_at_def)
  from len show "length (piece_at b (r, c)) = 2"
    by (simp add: piece_at_def)
qed

lemma wf_makeMove:
  assumes "wf_board (board s)" and "built_on (board s) m"
  shows "\<exists>s1. makeMove s m = Inr s1"
proof -
  from assms(2) have v: "valid_sq (board s) (startRow m) (startCol m)"
    "valid_sq (board s) (endRow m) (endCol m)"
    and pm: "pieceMoved m = board s ! row_of (board s) (startRow m)
                            ! col_of (board s) (startRow m) (startCol m)"
    by (auto simp: built_on_def)
  from wf_valid_sq_piece [OF assms(1) v(1)] pm have "valid_ix (length (pieceMoved m)) 1"
    by (simp add: valid_ix_def)
  with v show ?thesis
    by (simp add: makeMove_Inr_iff)
qed

subsection \<open>Every generated move is built on the board\<close>

lemma extends_refl: "extends b moves moves"
  by (simp add: extends_def)

lemma extends_trans: "extends b xs ys \<Longrightarrow> extends b ys zs \<Longrightarrow> extends b xs zs"
  by (fastforce simp: extends_def)

lemma append_move_extends: "append_move moves a e b = Inr moves' \<Longrightarrow> extends b moves moves'"
  by (auto simp: append_move_def extends_def dest: Move_init_built_on split: sum.splits)

lemma pawn_advance_extends:
  "pawn_advance b r c r1 r2 home moves = Inr moves' \<Longrightarrow> extends b moves moves'"
  unfolding pawn_advance_def
  by (auto split: sum.splits if_splits
           intro: extends_refl dest!: append_move_extends elim: extends_trans)

lemma pawn_capture_extends:
  "pawn_capture b r c r1 c1 inside enemy moves = Inr moves' \<Longrightarrow> extends b moves moves'"
  unfolding pawn_capture_def
  by (auto split: sum.splits if_splits intro: extends_refl dest!: append_move_extends)

lemma getPawnmoves_extends:
  "getPawnmoves s r c moves = Inr moves' \<Longrightarrow> extends (board s) moves moves'"
  unfolding getPawnmoves_def
  by (auto split: sum.splits if_splits
           dest!: pawn_advance_extends pawn_capture_extends elim: extends_trans)

lemma slide_ray_extends:
  "slide_ray b enemy r c d is moves = Inr moves' \<Longrightarrow> extends b moves moves'"
proof (induction "is" arbitrary: moves)
  case Nil
  then show ?case by (simp add: extends_refl)
next
  case (Cons i "is")
  from Cons.prems show ?case
    by (auto split: sum.splits if_splits
             intro: extends_refl dest!: append_move_extends Cons.IH elim: extends_trans)
qed

lemma slide_dirs_extends:
  "slide_dirs b enemy r c ds moves = Inr moves' \<Longrightarrow> extends b moves moves'"
proof (induction ds arbitrary: moves)
  case Nil
  then show ?case by (simp add: extends_refl)
next
  case (Cons d ds)
  from Cons.prems show ?case
    by (auto split: sum.splits dest!: slide_ray_extends Cons.IH elim: extends_trans)
qed

lemma offset_moves_extends:
  "offset_moves b ally r c ms moves = Inr moves' \<Longrightarrow> extends b moves moves'"
proof (induction ms arbitrary: moves)
  case Nil
  then show ?case by (simp add: extends_refl)
next
  case (Cons m ms)
  from Cons.prems show ?case
    by (auto split: sum.splits if_splits
             dest!: append_move_extends Cons.IH elim: extends_trans)
qed

lemma getRookmoves_extends:
  "getRookmoves s r c moves = Inr moves' \<Longrightarrow> extends (board s) moves moves'"
  unfolding getRookmoves_def by (rule slide_dirs_extends)

lemma getBishopmoves_extends:
  "getBishopmoves s r c moves = Inr moves' \<Longrightarrow> extends (board s) moves moves'"
  unfolding getBishopmoves_def by (rule slide_dirs_extends)

lemma getQueenmoves_extends:
  "getQueenmoves s r c moves = Inr moves' \<Longrightarrow> extends (board s) moves moves'"
  unfolding getQueenmoves_def
  by (auto split: sum.splits dest!: getRookmoves_extends getBishopmoves_extends
           elim: extends_trans)

lemma getKnightmoves_extends:
  "getKnightmoves s r c moves = Inr moves' \<Longrightarrow> extends (board s) moves moves'"
  unfolding getKnightmoves_def by (rule offset_moves_extends)

lemma getKingmoves_extends:
  "getKingmoves s r c moves = Inr moves' \<Longrightarrow> extends (board s) moves moves'"
  unfolding getKingmoves_def by (rule offset_moves_extends)

lemma moveFunctions_cases:
  "moveFunctions piece = Some f \<Longrightarrow>
   f = getPawnmoves \<or> f = getRookmoves \<or> f = getKnightmoves \<or>
   f = getBishopmoves \<or> f = getQueenmoves \<or> f = getKingmoves"
  by (auto simp: moveFunctions_def split: if_splits)

lemma visit_square_extends:
  "visit_square s r c moves = Inr moves' \<Longrightarrow> extends (board s) moves moves'"
  unfolding visit_square_def
  by (auto split: sum.splits if_splits option.splits
           intro: extends_refl getPawnmoves_extends getRookmoves_extends getKnightmoves_extends
                  getBishopmoves_extends getQueenmoves_extends getKingmoves_extends
           dest!: moveFunctions_cases)

lemma scan_cols_extends:
  "scan_cols s r cs moves = Inr moves' \<Longrightarrow> extends (board s) moves moves'"
proof (induction cs arbitrary: moves)
  case Nil
  then show ?case by (simp add: extends_refl)
next
  case (Cons c cs)
  from Cons.prems show ?case
    by (auto split: sum.splits dest!: visit_square_extends Cons.IH elim: extends_trans)
qed

lemma scan_rows_extends:
  "scan_rows s rs moves = Inr moves' \<Longrightarrow> extends (board s) moves moves'"
proof (induction rs arbitrary: moves)
  case Nil
  then show ?case by (simp add: extends_refl)
next
  case (Cons r rs)
  from Cons.prems show ?case
    by (auto split: sum.splits dest!: scan_cols_extends Cons.IH elim: extends_trans)
qed

lemma getAllPossibleMoves_built_on:
  "getAllPossibleMoves s = Inr moves \<Longrightarrow> list_all (built_on (board s)) moves"
  unfolding getAllPossibleMoves_def
  by (auto dest!: scan_rows_extends simp: extends_def)

subsection \<open>The legality filter restores the state\<close>

lemma squareUnderAttack_state: "squareUnderAttack s r c = Inr (a, s') \<Longrightarrow> s' = s"
  by (auto simp: squareUnderAttack_def Let_def split: sum.splits)

lemma inCheck_state: "inCheck s = Inr (a, s') \<Longrightarrow> s' = s"
  by (auto simp: inCheck_def dest: squareUnderAttack_state split: if_splits)

lemma list_remove_subset: "list_remove ms x = Inr ms' \<Longrightarrow> set ms' \<subseteq> set ms"
  by (induction ms arbitrary: ms') (auto split: if_splits sum.splits)

lemma filter_step_state:
  assumes "filter_step i moves s = Inr (moves', s')"
      and "list_all (built_on (board s)) moves"
  shows "s' = s \<and> set moves' \<subseteq> set moves"
proof -
  from assms(1) obtain mv s1 chk s2 where
    mv: "py_index moves i = Inr mv" and mk: "makeMove s mv = Inr s1"
    and ck: "inCheck (s1\<lparr>whiteToMove := \<not> whiteToMove s1\<rparr>) = Inr (chk, s2)"
    and rm: "(if chk then list_remove moves mv else Inr moves) = Inr moves'"
    and un: "undoMove (s2\<lparr>whiteToMove := \<not> whiteToMove s2\<rparr>) = Inr s'"
    by (auto simp: filter_step_def split: sum.splits prod.splits)
  from mv have "mv \<in> set moves"
    by (auto simp: py_index_eq ix_less split: if_splits)
  with assms(2) have "built_on (board s) mv"
    by (simp add: list_all_iff)
  from makeMove_undoMove [OF this mk] have "undoMove s1 = Inr s" .
  moreover from inCheck_state [OF ck] have "s2\<lparr>whiteToMove := \<not> whiteToMove s2\<rparr> = s1"
    by simp
  ultimately have "s' = s"
    using un by simp
  moreover from rm have "set moves' \<subseteq> set moves"
    by (auto split: if_splits dest: list_remove_subset)
  ultimately show ?thesis by blast
qed

lemma filter_loop_state:
  "filter_loop is moves s = Inr (moves', s') \<Longrightarrow> list_all (built_on (board s)) moves \<Longrightarrow>
   s' = s \<and> set moves' \<subseteq> set moves"
proof (induction "is" arbitrary: moves)
  case Nil
  then show ?case by simp
next
  case (Cons i "is")
  from Cons.prems(1) obtain moves1 s1 where
    st: "filter_step i moves s = Inr (moves1, s1)"
    and lp: "filter_loop is moves1 s1 = Inr (moves', s')"
    by (auto split: sum.splits prod.splits)
  from filter_step_state [OF st Cons.prems(2)]
  have s1: "s1 = s" and sub: "set moves1 \<subseteq> set moves"
    by auto
  from sub Cons.prems(2) have "list_all (built_on (board s)) moves1"
    by (auto simp: list_all_iff)
  from Cons.IH [OF lp [unfolded s1] this] sub show ?case
    by blast
qed

text \<open>
  What a call of \<open>getValidMoves\<close> that returns leaves behind: the state it found, with
  both flags cleared when the list is not empty, and with one flag set and the other
  untouched when it is.
\<close>

lemma getValidMoves_result:
  assumes "getValidMoves s = Inr (moves, s')"
  shows "if moves = [] then
           (\<exists>chk. inCheck s = Inr (chk, s) \<and>
                  s' = (if chk then s\<lparr>checkMate := True\<rparr> else s\<lparr>staleMate := True\<rparr>))
         else s' = s\<lparr>checkMate := False, staleMate := False\<rparr>"
proof -
  from assms obtain moves0 s1 where
    g: "getAllPossibleMoves s = Inr moves0"
    and f: "filter_loop (rev (py_range (length moves0))) moves0 s = Inr (moves, s1)"
    by (auto simp: getValidMoves_def split: sum.splits prod.splits if_splits)
  from filter_loop_state [OF f getAllPossibleMoves_built_on [OF g]] have s1: "s1 = s"
    by simp
  from assms g f show ?thesis
    by (auto simp: getValidMoves_def s1 split: sum.splits prod.splits if_splits
             dest: inCheck_state)
qed

subsection \<open>Rays of the sliding pieces\<close>

lemma wf_append_move:
  assumes "wf_board b" and "on_board a" and "on_board e"
  shows "append_move moves a e b = Inr (moves @ [move_at b a e])"
proof -
  from wf_on_board(1) [OF assms(1), of "fst a" "snd a"] assms(2)
  have "valid_sq b (fst a) (snd a)" by simp
  moreover from wf_on_board(1) [OF assms(1), of "fst e" "snd e"] assms(3)
  have "valid_sq b (fst e) (snd e)" by simp
  ultimately show ?thesis
    by (simp add: append_move_def Move_init_eq)
qed

lemma wf_cell:
  assumes "wf_board b" and "on_board sq"
  shows "cell b (fst sq) (snd sq) = Inr (piece_at b sq)"
    and "py_str_index (piece_at b sq) 0 = Inr [piece_at b sq ! 0]"
    and "cell_char b (fst sq) (snd sq) 0 = Inr [piece_at b sq ! 0]"
proof -
  from assms(2) have ob: "on_board (fst sq, snd sq)" by simp
  note w = wf_on_board [OF assms(1) ob]
  from w show c: "cell b (fst sq) (snd sq) = Inr (piece_at b sq)"
    by (simp add: cell_eq)
  from w(5) show p: "py_str_index (piece_at b sq) 0 = Inr [piece_at b sq ! 0]"
    by (simp add: py_str_index_eq valid_ix_def ix_def py_norm_def)
  from c p show "cell_char b (fst sq) (snd sq) 0 = Inr [piece_at b sq ! 0]"
    by (simp add: cell_char_def)
qed

text \<open>On a well-formed board the ray loop raises nothing and appends \<open>ray_moves\<close>.\<close>

lemma slide_ray_eq:
  assumes "wf_board b" and "on_board (r, c)"
  shows "slide_ray b enemy r c d is moves = Inr (moves @ ray_moves b enemy r c d is)"
proof (induction "is" arbitrary: moves)
  case Nil
  show ?case by simp
next
  case (Cons i "is")
  have inside: "(0 \<le> r + fst d * i \<and> r + fst d * i < 8 \<and>
                 0 \<le> c + snd d * i \<and> c + snd d * i < 8) = on_board (ray_sq r c d i)"
    by (simp add: on_board_def ray_sq_def)
  have sq: "(r + fst d * i, c + snd d * i) = ray_sq r c d i"
    by (simp add: ray_sq_def)
  show ?case
  proof (cases "on_board (ray_sq r c d i)")
    case False
    then show ?thesis
      unfolding slide_ray.simps ray_moves.simps inside by simp
  next
    case True
    note cl = wf_cell [OF assms(1) True]
    note ap = wf_append_move [OF assms(1) assms(2) True]
    from cl(1) have c1: "cell b (r + fst d * i) (c + snd d * i) = Inr (piece_at b (ray_sq r c d i))"
      by (simp add: ray_sq_def)
    show ?thesis
      unfolding slide_ray.simps ray_moves.simps inside sq c1
      using True by (simp add: ap cl(2) Cons.IH)
  qed
qed

lemma slide_dirs_eq:
  assumes "wf_board b" and "on_board (r, c)"
  shows "slide_dirs b enemy r c ds moves
         = Inr (moves @ concat (map (\<lambda>d. ray_moves b enemy r c d [1..7]) ds))"
  by (induction ds arbitrary: moves) (simp_all add: slide_ray_eq [OF assms])

lemma dests_append [simp]: "dests (xs @ ys) = dests xs \<union> dests ys"
  by (auto simp: dests_def)

lemma dests_Nil [simp]: "dests [] = {}"
  by (simp add: dests_def)

lemma dests_Cons [simp]: "dests (m # ms) = insert (endRow m, endCol m) (dests ms)"
  by (simp add: dests_def)

lemma dests_concat: "dests (concat xss) = (\<Union>xs\<in>set xss. dests xs)"
  by (induction xss) auto

lemma dests_ray_moves_subset:
  "dests (ray_moves b enemy r c d is) \<subseteq> ray_sq r c d ` set is"
  by (induction "is") auto

lemma ray_moves_prefix:
  assumes "\<forall>j\<in>set pre. on_board (ray_sq r c d j) \<and> piece_at b (ray_sq r c d j) = ''--''"
  shows "ray_moves b enemy r c d (pre @ post)
         = map (\<lambda>j. move_at b (r, c) (ray_sq r c d j)) pre @ ray_moves b enemy r c d post"
  using assms by (induction pre) auto

text \<open>The eight directions, and what separates their rays.\<close>

lemma direction_cases:
  "d \<in> set (rook_directions @ bishop_directions) \<Longrightarrow>
   fst d \<in> {- 1, 0, 1} \<and> snd d \<in> {- 1, 0, 1} \<and> d \<noteq> (0, 0)"
  by (auto simp: rook_directions_def bishop_directions_def)

lemma unit_mult_cases:
  fixes a i :: int
  assumes "a \<in> {- 1, 0, 1}"
  shows "a * i = - i \<and> a = - 1 \<or> a * i = 0 \<and> a = 0 \<or> a * i = i \<and> a = 1"
  using assms by auto

lemma ray_sq_inject:
  assumes d: "d \<in> set (rook_directions @ bishop_directions)"
      and d': "d' \<in> set (rook_directions @ bishop_directions)"
      and i: "1 \<le> i" and i': "1 \<le> i'"
      and eq: "ray_sq r c d i = ray_sq r c d' i'"
  shows "d = d' \<and> i = i'"
proof -
  obtain a b where dab: "d = (a, b)" by (cases d)
  obtain a' b' where dab': "d' = (a', b')" by (cases d')
  from direction_cases [OF d] dab
  have A: "a \<in> {- 1, 0, 1}" "b \<in> {- 1, 0, 1}" "(a, b) \<noteq> (0, 0)" by auto
  from direction_cases [OF d'] dab'
  have A': "a' \<in> {- 1, 0, 1}" "b' \<in> {- 1, 0, 1}" "(a', b') \<noteq> (0, 0)" by auto
  from eq dab dab' have e: "a * i = a' * i'" "b * i = b' * i'"
    by (auto simp: ray_sq_def)
  from unit_mult_cases [OF A(1), of i] unit_mult_cases [OF A'(1), of i']
       unit_mult_cases [OF A(2), of i] unit_mult_cases [OF A'(2), of i'] e A(3) A'(3) i i'
  have "a = a' \<and> b = b' \<and> i = i'"
    by auto
  with dab dab' show ?thesis by simp
qed

lemma direction_consider:
  assumes "d \<in> set (rook_directions @ bishop_directions)"
  obtains "d = (- 1, 0)" | "d = (0, - 1)" | "d = (1, 0)" | "d = (0, 1)"
        | "d = (- 1, - 1)" | "d = (- 1, 1)" | "d = (1, - 1)" | "d = (1, 1)"
  using assms by (auto simp: rook_directions_def bishop_directions_def)

lemma ray_between:
  assumes d: "d \<in> set (rook_directions @ bishop_directions)"
      and "on_board (r, c)" and "on_board (ray_sq r c d k)" and "1 \<le> j" and "j \<le> k"
  shows "on_board (ray_sq r c d j)" and "k \<le> 7"
  using assms(2-5) by (cases rule: direction_consider [OF d]; simp add: on_board_def ray_sq_def)+

text \<open>
  A ray that meets a first occupied square at distance \<open>k\<close> contributes the squares
  before it, and that square itself when its colour is the enemy's.
\<close>

lemma dests_map_move_at:
  "dests (map (\<lambda>j. move_at b a (g j)) js) = g ` set js"
  by (induction js) auto

lemma ray_moves_first_occupied:
  assumes d: "d \<in> set (rook_directions @ bishop_directions)"
      and ob: "on_board (r, c)" and fo: "first_occupied b r c d k"
  shows "dests (ray_moves b enemy r c d [1..7])
         = ray_sq r c d ` {1..k - 1}
           \<union> (if [piece_at b (ray_sq r c d k) ! 0] = enemy then {ray_sq r c d k} else {})"
proof -
  from fo have k1: "1 \<le> k" and obk: "on_board (ray_sq r c d k)"
    and occ: "piece_at b (ray_sq r c d k) \<noteq> ''--''"
    and emp: "\<And>j. 1 \<le> j \<Longrightarrow> j < k \<Longrightarrow> piece_at b (ray_sq r c d j) = ''--''"
    by (auto simp: first_occupied_def)
  from ray_between(2) [OF d ob obk k1] have k7: "k \<le> 7" by simp
  have split: "[1..7] = [1..k - 1] @ k # [k + 1..7]"
    using k1 k7 by (rule upto_split3)
  have pre: "\<forall>j\<in>set [1..k - 1]. on_board (ray_sq r c d j) \<and> piece_at b (ray_sq r c d j) = ''--''"
    using ray_between(1) [OF d ob obk] emp by auto
  have "ray_moves b enemy r c d [1..7]
        = map (\<lambda>j. move_at b (r, c) (ray_sq r c d j)) [1..k - 1]
          @ ray_moves b enemy r c d (k # [k + 1..7])"
    unfolding split by (rule ray_moves_prefix [OF pre])
  then have "dests (ray_moves b enemy r c d [1..7])
        = ray_sq r c d ` set [1..k - 1] \<union> dests (ray_moves b enemy r c d (k # [k + 1..7]))"
    by (simp add: dests_map_move_at)
  also have "dests (ray_moves b enemy r c d (k # [k + 1..7]))
        = (if [piece_at b (ray_sq r c d k) ! 0] = enemy then {ray_sq r c d k} else {})"
    using obk occ by simp
  finally show ?thesis by simp
qed

lemma slider_dests:
  assumes wf: "wf_board b" and ob: "on_board (r, c)"
      and ds: "set ds \<subseteq> set (rook_directions @ bishop_directions)"
      and d: "d \<in> set ds" and fo: "first_occupied b r c d k"
  shows "\<exists>new. slide_dirs b enemy r c ds moves = Inr (moves @ new) \<and>
           (\<forall>i. k < i \<longrightarrow> ray_sq r c d i \<notin> dests new) \<and>
           (ray_sq r c d k \<in> dests new \<longleftrightarrow> [piece_at b (ray_sq r c d k) ! 0] = enemy)"
proof -
  let ?ray = "\<lambda>d. ray_moves b enemy r c d [1..7]"
  let ?new = "concat (map ?ray ds)"
  from fo have k1: "1 \<le> k" by (simp add: first_occupied_def)
  from d ds have d8: "d \<in> set (rook_directions @ bishop_directions)" by blast
  note own = ray_moves_first_occupied [OF d8 ob fo, of enemy]
  have new: "dests ?new = (\<Union>d'\<in>set ds. dests (?ray d'))"
    by (simp add: dests_concat)
  have only_own: "ray_sq r c d i \<in> dests (?ray d)" if "1 \<le> i" and "ray_sq r c d i \<in> dests ?new" for i
  proof -
    from that(2) new obtain d' where d': "d' \<in> set ds" and "ray_sq r c d i \<in> dests (?ray d')"
      by auto
    with dests_ray_moves_subset [of b enemy r c d' "[1..7]"]
    have "ray_sq r c d i \<in> ray_sq r c d' ` {1..7}"
      by auto
    then obtain i' where "1 \<le> i'" and "ray_sq r c d i = ray_sq r c d' i'"
      by (auto simp: image_iff)
    with ray_sq_inject [OF d8 _ that(1)] d' ds have "d = d'"
      by blast
    with \<open>ray_sq r c d i \<in> dests (?ray d')\<close> show ?thesis by simp
  qed
  have bound: "i \<le> k \<and> (i = k \<longrightarrow> [piece_at b (ray_sq r c d k) ! 0] = enemy)"
    if "1 \<le> i" and "ray_sq r c d i \<in> dests (?ray d)" for i
  proof -
    from that(2) own consider j where "1 \<le> j" "j \<le> k - 1" "ray_sq r c d i = ray_sq r c d j"
      | "[piece_at b (ray_sq r c d k) ! 0] = enemy" "ray_sq r c d i = ray_sq r c d k"
      by (auto split: if_splits)
    then show ?thesis
    proof cases
      case 1
      from ray_sq_inject [OF d8 d8 that(1) 1(1) 1(3)] 1(2) show ?thesis by simp
    next
      case 2
      from ray_sq_inject [OF d8 d8 that(1) k1 2(2)] 2(1) show ?thesis by simp
    qed
  qed
  have beyond: "\<forall>i. k < i \<longrightarrow> ray_sq r c d i \<notin> dests ?new"
  proof (intro allI impI notI)
    fix i assume "k < i" and "ray_sq r c d i \<in> dests ?new"
    with k1 only_own [of i] bound [of i] show False by auto
  qed
  have first: "ray_sq r c d k \<in> dests ?new \<longleftrightarrow> [piece_at b (ray_sq r c d k) ! 0] = enemy"
  proof
    assume "ray_sq r c d k \<in> dests ?new"
    with k1 only_own [of k] bound [of k] show "[piece_at b (ray_sq r c d k) ! 0] = enemy"
      by auto
  next
    assume "[piece_at b (ray_sq r c d k) ! 0] = enemy"
    with own have "ray_sq r c d k \<in> dests (?ray d)" by simp
    with d new show "ray_sq r c d k \<in> dests ?new" by blast
  qed
  from slide_dirs_eq [OF wf ob, of enemy ds moves] beyond first show ?thesis
    by blast
qed

subsection \<open>Pawns with a row in front of them\<close>

lemma wf_pawn_advance:
  assumes "wf_board b" and "on_board (r, c)" and "on_board (r1, c)"
      and "home \<Longrightarrow> on_board (r2, c)"
  shows "pawn_advance b r c r1 r2 home moves
         = Inr (moves @
                (if piece_at b (r1, c) = ''--'' then
                   move_at b (r, c) (r1, c)
                   # (if home \<and> piece_at b (r2, c) = ''--'' then [move_at b (r, c) (r2, c)]
                      else [])
                 else []))"
proof -
  from wf_cell(1) [OF assms(1,3)] have c1: "cell b r1 c = Inr (piece_at b (r1, c))"
    by simp
  note a1 = wf_append_move [OF assms(1,2,3)]
  show ?thesis
  proof (cases home)
    case False
    then show ?thesis
      by (simp add: pawn_advance_def c1 a1)
  next
    case True
    from wf_cell(1) [OF assms(1) assms(4) [OF True]]
    have c2: "cell b r2 c = Inr (piece_at b (r2, c))"
      by simp
    note a2 = wf_append_move [OF assms(1,2) assms(4) [OF True]]
    from True show ?thesis
      by (simp add: pawn_advance_def c1 c2 a1 a2)
  qed
qed

lemma wf_pawn_capture:
  assumes "wf_board b" and "on_board (r, c)" and "inside \<Longrightarrow> on_board (r1, c1)"
  shows "pawn_capture b r c r1 c1 inside enemy moves
         = Inr (moves @
                (if inside \<and> [piece_at b (r1, c1) ! 0] = enemy then [move_at b (r, c) (r1, c1)]
                 else []))"
proof (cases inside)
  case False
  then show ?thesis
    by (simp add: pawn_capture_def)
next
  case True
  from wf_cell(3) [OF assms(1) assms(3) [OF True]]
  have cc: "cell_char b r1 c1 0 = Inr [piece_at b (r1, c1) ! 0]"
    by simp
  note a = wf_append_move [OF assms(1,2) assms(3) [OF True]]
  from True show ?thesis
    by (simp add: pawn_capture_def cc a)
qed

text \<open>
  A pawn of the side to move that has a row in front of it (a white pawn not on row 0, a
  black pawn not on row 7), on a well-formed board: the generator raises nothing; it
  offers the double step exactly from the home row with both squares in front empty, and
  a diagonal move exactly onto a square of the board that holds a piece of the enemy.
\<close>

lemma getPawnmoves_white_offers:
  assumes wf: "wf_board (board s)" and w: "whiteToMove s"
      and ob: "on_board (r, c)" and r1: "1 \<le> r"
  shows "\<exists>new. getPawnmoves s r c moves = Inr (moves @ new) \<and>
           ((r - 2, c) \<in> dests new \<longleftrightarrow>
              r = 6 \<and> piece_at (board s) (r - 1, c) = ''--''
                    \<and> piece_at (board s) (r - 2, c) = ''--'') \<and>
           ((r - 1, c - 1) \<in> dests new \<longleftrightarrow>
              0 \<le> c - 1 \<and> [piece_at (board s) (r - 1, c - 1) ! 0] = ''b'') \<and>
           ((r - 1, c + 1) \<in> dests new \<longleftrightarrow>
              c + 1 \<le> 7 \<and> [piece_at (board s) (r - 1, c + 1) ! 0] = ''b'')"
proof -
  from ob r1 have f: "on_board (r - 1, c)" and h: "r = 6 \<Longrightarrow> on_board (r - 2, c)"
    and l: "c - 1 \<ge> 0 \<Longrightarrow> on_board (r - 1, c - 1)"
    and g: "c + 1 \<le> 7 \<Longrightarrow> on_board (r - 1, c + 1)"
    by (auto simp: on_board_def)
  show ?thesis
    unfolding getPawnmoves_def
    using w
    by (auto simp: wf_pawn_advance [OF wf ob f h] wf_pawn_capture [OF wf ob l]
                   wf_pawn_capture [OF wf ob g])
qed

lemma getPawnmoves_black_offers:
  assumes wf: "wf_board (board s)" and w: "\<not> whiteToMove s"
      and ob: "on_board (r, c)" and r6: "r \<le> 6"
  shows "\<exists>new. getPawnmoves s r c moves = Inr (moves @ new) \<and>
           ((r + 2, c) \<in> dests new \<longleftrightarrow>
              r = 1 \<and> piece_at (board s) (r + 1, c) = ''--''
                    \<and> piece_at (board s) (r + 2, c) = ''--'') \<and>
           ((r + 1, c - 1) \<in> dests new \<longleftrightarrow>
              0 \<le> c - 1 \<and> [piece_at (board s) (r + 1, c - 1) ! 0] = ''w'') \<and>
           ((r + 1, c + 1) \<in> dests new \<longleftrightarrow>
              c + 1 \<le> 7 \<and> [piece_at (board s) (r + 1, c + 1) ! 0] = ''w'')"
proof -
  from ob r6 have f: "on_board (r + 1, c)" and h: "r = 1 \<Longrightarrow> on_board (r + 2, c)"
    and l: "c - 1 \<ge> 0 \<Longrightarrow> on_board (r + 1, c - 1)"
    and g: "c + 1 \<le> 7 \<Longrightarrow> on_board (r + 1, c + 1)"
    by (auto simp: on_board_def)
  show ?thesis
    unfolding getPawnmoves_def
    using w
    by (auto simp: wf_pawn_advance [OF wf ob f h] wf_pawn_capture [OF wf ob l]
                   wf_pawn_capture [OF wf ob g])
qed

subsection \<open>Evaluated facts\<close>

lemma wf_init_board: "wf_board (board init_state)"
  by code_simp

lemma wf_preserved:
  assumes "wf_board (board s)" and "built_on (board s) m" and "makeMove s m = Inr s1"
  shows "wf_board (board s1)"
proof -
  have row: "list_all (\<lambda>p. length p = 2) (row[j := v])"
    if "list_all (\<lambda>p. length p = 2) row" and "length v = 2" for row :: "string list" and j v
    using that by (auto simp: list_all_iff dest: set_update_subset_insert [THEN subsetD])
  have brd: "wf_board (upd b i j v)" if "wf_board b" and "length v = 2" for b i j v
    using that row [of "b ! i" v j]
    by (cases "i < length b")
       (auto simp: wf_board_def upd_def list_all_iff list_update_beyond
             dest!: set_update_subset_insert [THEN subsetD])
  from assms(2) have "valid_sq (board s) (startRow m) (startCol m)"
    and "pieceMoved m = board s ! row_of (board s) (startRow m)
                        ! col_of (board s) (startRow m) (startCol m)"
    by (auto simp: built_on_def)
  with wf_valid_sq_piece [OF assms(1)] have "length (pieceMoved m) = 2"
    by simp
  with assms(1,3) show ?thesis
    by (auto simp: makeMove_Inr_iff intro!: brd)
qed

subsection \<open>The starting position, evaluated\<close>

lemma getValidMoves_init: "getValidMoves init_state = Inr (start_moves, init_state)"
  by code_simp

subsection \<open>Three lines of play, evaluated\<close>

lemma turn_e4: "legal_turn init_state ((6, 4), (4, 4)) = Some pos_e4"
  unfolding legal_turn_def getValidMoves_init by code_simp

lemma turn_d5: "legal_turn pos_e4 ((1, 3), (3, 3)) = Some pos_e4_d5"
  by code_simp

lemma turn_Ke2: "legal_turn pos_e4_d5 ((7, 4), (6, 4)) = Some pos_Ke2"
  by code_simp

lemma turn_Bg4: "legal_turn pos_Ke2 ((0, 2), (4, 6)) = Some pos_Bg4"
  by code_simp

lemma turn_a3: "legal_turn pos_Bg4 ((6, 0), (5, 0)) = Some pos_a3"
  by code_simp

lemma play_last_rank:
  "play init_state
     [((6, 0), (4, 0)), ((1, 3), (3, 3)), ((4, 0), (3, 0)), ((3, 3), (4, 3)),
      ((3, 0), (2, 0)), ((4, 3), (5, 3)), ((2, 0), (1, 1)), ((5, 3), (6, 2)),
      ((1, 1), (0, 2)), ((6, 2), (7, 1))]
   = Inr pos_last_rank"
  by code_simp

lemma play_Nxg2:
  "play init_state
     [((6, 4), (4, 4)), ((0, 6), (2, 7)), ((7, 5), (4, 2)), ((2, 7), (3, 5)),
      ((7, 4), (6, 4)), ((3, 5), (4, 7)), ((6, 0), (5, 0)), ((4, 7), (6, 6))]
   = Inr pos_Nxg2"
  by code_simp

lemma getValidMoves_pos_Nxg2:
  "getValidMoves pos_Nxg2 = Inr ([], pos_Nxg2\<lparr>checkMate := True\<rparr>)"
  by code_simp

lemma getValidMoves_pos_last_rank: "getValidMoves pos_last_rank = Inl IndexError"
  by code_simp

subsection \<open>The claims\<close>

text \<open>
  Claim C3. In a state with a well-formed board (every reachable state has one), a move
  built on the live board is applied by \<open>makeMove\<close> without a failure, and \<open>undoMove\<close>
  right after it gives back the very state before the call: the board grid, the turn
  flag, both cached king squares, and the log as well.
\<close>

theorem makeMove_undoMove_roundtrip:
  assumes "wf_board (board s)" and "Move_init startSq endSq (board s) = Inr m"
  shows "\<exists>s1 s2. makeMove s m = Inr s1 \<and> undoMove s1 = Inr s2 \<and>
           board s2 = board s \<and> whiteToMove s2 = whiteToMove s \<and>
           whiteKingLocation s2 = whiteKingLocation s \<and>
           blackKingLocation s2 = blackKingLocation s \<and> s2 = s"
proof -
  from assms(2) have b: "built_on (board s) m"
    by (rule Move_init_built_on)
  from wf_makeMove [OF assms(1) b] obtain s1 where s1: "makeMove s m = Inr s1" ..
  from makeMove_undoMove [OF b s1] s1 show ?thesis
    by blast
qed

theorem makeMove_undoMove_roundtrip_witness:
  "wf_board (board init_state) \<and>
   Move_init (6, 4) (4, 4) (board init_state) = Inr (move_rec 6 4 4 4 ''wp'' ''--'') \<and>
   (\<exists>s1 s2. makeMove init_state (move_rec 6 4 4 4 ''wp'' ''--'') = Inr s1 \<and>
      undoMove s1 = Inr s2 \<and> board s2 = board init_state \<and>
      whiteToMove s2 = whiteToMove init_state \<and>
      whiteKingLocation s2 = whiteKingLocation init_state \<and>
      blackKingLocation s2 = blackKingLocation init_state \<and> s2 = init_state)"
proof -
  have h: "Move_init (6, 4) (4, 4) (board init_state) = Inr (move_rec 6 4 4 4 ''wp'' ''--'')"
    by code_simp
  note r = makeMove_undoMove_roundtrip [OF wf_init_board h]
  show ?thesis
    by (intro conjI) (rule wf_init_board, rule h, rule r)
qed

text \<open>
  Claim C9. Two move records built from squares whose rows and columns all lie in 0..7
  compare equal exactly when the four coordinates agree. The boards they are built on, and
  so the pieces moved and captured, are arbitrary.
\<close>

theorem Move_eq_coordinates:
  assumes "Move_init (r1, c1) (r2, c2) b = Inr m"
      and "Move_init (r1', c1') (r2', c2') b' = Inr m'"
      and "on_board (r1, c1)" and "on_board (r2, c2)"
      and "on_board (r1', c1')" and "on_board (r2', c2')"
  shows "Move_eq m m' \<longleftrightarrow> (r1 = r1' \<and> c1 = c1' \<and> r2 = r2' \<and> c2 = c2')"
proof -
  from assms(1) have m: "moveID m = r1 * 1000 + c1 * 100 + r2 * 10 + c2"
    by (auto simp: Move_init_eq split: if_splits)
  from assms(2) have m': "moveID m' = r1' * 1000 + c1' * 100 + r2' * 10 + c2'"
    by (auto simp: Move_init_eq split: if_splits)
  from assms(3-6) have bounds:
    "0 \<le> r1" "r1 < 8" "0 \<le> c1" "c1 < 8" "0 \<le> r2" "r2 < 8" "0 \<le> c2" "c2 < 8"
    "0 \<le> r1'" "r1' < 8" "0 \<le> c1'" "c1' < 8" "0 \<le> r2'" "r2' < 8" "0 \<le> c2'" "c2' < 8"
    by (simp_all add: on_board_def)
  show ?thesis
  proof
    assume "Move_eq m m'"
    then have "r1 * 1000 + c1 * 100 + r2 * 10 + c2 = r1' * 1000 + c1' * 100 + r2' * 10 + c2'"
      by (simp add: Move_eq_def m m')
    with bounds show "r1 = r1' \<and> c1 = c1' \<and> r2 = r2' \<and> c2 = c2'"
      by (intro digits4_inject)
  next
    assume "r1 = r1' \<and> c1 = c1' \<and> r2 = r2' \<and> c2 = c2'"
    then show "Move_eq m m'"
      by (simp add: Move_eq_def m m')
  qed
qed

theorem Move_eq_coordinates_witness:
  "Move_init (6, 4) (4, 4) (board init_state) = Inr (move_rec 6 4 4 4 ''wp'' ''--'') \<and>
   Move_init (6, 4) (4, 4) (board pos_Ke2) = Inr (move_rec 6 4 4 4 ''wK'' ''wp'') \<and>
   on_board (6, 4) \<and> on_board (4, 4) \<and>
   Move_eq (move_rec 6 4 4 4 ''wp'' ''--'') (move_rec 6 4 4 4 ''wK'' ''wp'')"
proof -
  have h1: "Move_init (6, 4) (4, 4) (board init_state) = Inr (move_rec 6 4 4 4 ''wp'' ''--'')"
    by code_simp
  have h2: "Move_init (6, 4) (4, 4) (board pos_Ke2) = Inr (move_rec 6 4 4 4 ''wK'' ''wp'')"
    by code_simp
  have o1: "on_board (6, 4)" and o2: "on_board (4, 4)"
    by (simp_all add: on_board_def)
  from Move_eq_coordinates [OF h1 h2 o1 o2 o1 o2]
  have e: "Move_eq (move_rec 6 4 4 4 ''wp'' ''--'') (move_rec 6 4 4 4 ''wK'' ''wp'')"
    by simp
  show ?thesis
    by (intro conjI) (rule h1, rule h2, rule o1, rule o2, rule e)
qed

text \<open>The queen runs the rook's loop and then the bishop's: one loop over eight directions.\<close>

lemma slide_dirs_append:
  "slide_dirs b enemy r c (ds1 @ ds2) moves =
     (case slide_dirs b enemy r c ds1 moves of Inl e \<Rightarrow> Inl e
      | Inr moves1 \<Rightarrow> slide_dirs b enemy r c ds2 moves1)"
  by (induction ds1 arbitrary: moves) (auto split: sum.splits)

lemma getQueenmoves_eq:
  "getQueenmoves s r c moves =
     slide_dirs (board s) (if whiteToMove s then ''b'' else ''w'') r c
       (rook_directions @ bishop_directions) moves"
  by (auto simp: getQueenmoves_def getRookmoves_def getBishopmoves_def slide_dirs_append
           split: sum.splits)

text \<open>
  Claim C8. On a well-formed board, for a rook, bishop or queen standing on a square of
  the board: the generator raises nothing; along each of its rays that meets an occupied
  square, no destination lies beyond the first occupied square, and that square is a
  destination exactly when its colour is the colour of the opponent of the side to move.
\<close>

theorem sliding_rays:
  assumes "wf_board (board s)" and "on_board (r, c)"
      and "(gen, dirs) \<in> {(getRookmoves, rook_directions), (getBishopmoves, bishop_directions),
                            (getQueenmoves, rook_directions @ bishop_directions)}"
      and "d \<in> set dirs" and "first_occupied (board s) r c d k"
  shows "\<exists>new. gen s r c moves = Inr (moves @ new) \<and>
           (\<forall>i. k < i \<longrightarrow> ray_sq r c d i \<notin> dests new) \<and>
           (ray_sq r c d k \<in> dests new \<longleftrightarrow>
              cell_char (board s) (fst (ray_sq r c d k)) (snd (ray_sq r c d k)) 0
              = Inr (if whiteToMove s then ''b'' else ''w''))"
proof -
  let ?enemy = "if whiteToMove s then ''b'' else ''w''"
  from assms(5) have "on_board (ray_sq r c d k)"
    by (simp add: first_occupied_def)
  from wf_cell(3) [OF assms(1) this]
  have colour: "cell_char (board s) (fst (ray_sq r c d k)) (snd (ray_sq r c d k)) 0 = Inr ?enemy
                \<longleftrightarrow> [piece_at (board s) (ray_sq r c d k) ! 0] = ?enemy"
    by simp
  from assms(3) have gen: "gen s r c moves = slide_dirs (board s) ?enemy r c dirs moves"
    and sub: "set dirs \<subseteq> set (rook_directions @ bishop_directions)"
    by (auto simp: getRookmoves_def getBishopmoves_def getQueenmoves_eq)
  from slider_dests [OF assms(1,2) sub assms(4,5), of ?enemy moves] show ?thesis
    unfolding gen colour .
qed

theorem sliding_rays_witness:
  "wf_board (board pos_last_rank) \<and> on_board (7, 0) \<and>
   first_occupied (board pos_last_rank) 7 0 (- 1, 0) 6 \<and>
   (\<exists>new. getRookmoves pos_last_rank 7 0 [] = Inr ([] @ new) \<and>
      (\<forall>i. 6 < i \<longrightarrow> ray_sq 7 0 (- 1, 0) i \<notin> dests new) \<and>
      (ray_sq 7 0 (- 1, 0) 6 \<in> dests new \<longleftrightarrow>
         cell_char (board pos_last_rank) (fst (ray_sq 7 0 (- 1, 0) 6))
           (snd (ray_sq 7 0 (- 1, 0) 6)) 0
         = Inr (if whiteToMove pos_last_rank then ''b'' else ''w'')))"
proof -
  have wf: "wf_board (board pos_last_rank)"
    by code_simp
  have ob: "on_board (7, 0)"
    by (simp add: on_board_def)
  have empties: "list_all (\<lambda>j. piece_at (board pos_last_rank) (ray_sq 7 0 (- 1, 0) j) = ''--'')
                   [1, 2, 3, 4, 5]"
    by code_simp
  have stop: "on_board (ray_sq 7 0 (- 1, 0) 6) \<and>
              piece_at (board pos_last_rank) (ray_sq 7 0 (- 1, 0) 6) \<noteq> ''--''"
    by code_simp
  have fo: "first_occupied (board pos_last_rank) 7 0 (- 1, 0) 6"
    unfolding first_occupied_def
  proof (intro conjI allI impI)
    fix j :: int
    assume "1 \<le> j \<and> j < 6"
    then have "j \<in> set [1, 2, 3, 4, 5]"
      by auto
    with empties show "piece_at (board pos_last_rank) (ray_sq 7 0 (- 1, 0) j) = ''--''"
      unfolding list_all_iff by blast
  qed (use stop in simp_all)
  have g: "(getRookmoves, rook_directions)
           \<in> {(getRookmoves, rook_directions), (getBishopmoves, bishop_directions),
               (getQueenmoves, rook_directions @ bishop_directions)}"
    by simp
  have d: "(- 1, 0) \<in> set rook_directions"
    by (simp add: rook_directions_def)
  note r = sliding_rays [OF wf ob g d fo, of "[]"]
  show ?thesis
    by (intro conjI) (rule wf, rule ob, rule fo, rule r)
qed

text \<open>
  A call of \<open>getValidMoves\<close> that returns leaves the board grid, the turn flag, both
  cached king squares and the move history as they were at entry: the state after it is
  the state before it with, at most, other values of the two terminal flags. A call that
  raises is not covered: see \<open>getValidMoves_raises_after_makeMove\<close> below.
\<close>

lemma getValidMoves_frame:
  assumes "getValidMoves s = Inr (moves, s')"
  shows "board s' = board s \<and> whiteToMove s' = whiteToMove s \<and>
         whiteKingLocation s' = whiteKingLocation s \<and>
         blackKingLocation s' = blackKingLocation s \<and> moveLog s' = moveLog s \<and>
         s' = s\<lparr>checkMate := checkMate s', staleMate := staleMate s'\<rparr>"
  using getValidMoves_result [OF assms] by (auto split: if_splits)

text \<open>
  The flags after a call that returns: both false when the list is not empty; when it is
  empty, one flag is set by the answer of \<open>inCheck\<close> and the other one is left as it
  was at entry.
\<close>

lemma getValidMoves_flags:
  assumes "getValidMoves s = Inr (moves, s')"
  shows "if moves = [] then
           (\<exists>chk. inCheck s = Inr (chk, s) \<and>
                  checkMate s' = (if chk then True else checkMate s) \<and>
                  staleMate s' = (if chk then staleMate s else True))
         else (\<not> checkMate s' \<and> \<not> staleMate s')"
proof (cases "moves = []")
  case True
  with getValidMoves_result [OF assms] obtain chk where
    chk: "inCheck s = Inr (chk, s)"
    and s': "s' = (if chk then s\<lparr>checkMate := True\<rparr> else s\<lparr>staleMate := True\<rparr>)"
    by auto
  from s' have "checkMate s' = (if chk then True else checkMate s)"
    and "staleMate s' = (if chk then staleMate s else True)"
    by (cases chk; simp)+
  with chk True show ?thesis
    by auto
next
  case False
  with getValidMoves_result [OF assms] have "s' = s\<lparr>checkMate := False, staleMate := False\<rparr>"
    by simp
  with False show ?thesis
    by simp
qed

text \<open>
  Claim C10, at a position where the call raises. In \<open>pos_last_rank\<close>, reached by ten
  moves from the start, \<open>getAllPossibleMoves\<close> returns 25 moves for white. The loop of
  \<open>getValidMoves\<close> starts at the last of them, the knight move g1-h3: \<open>makeMove\<close>
  applies it, which puts the knight on (5, 7) and an eleventh entry in the log, and the
  check test that follows raises, because it generates the moves of the black pawn on row
  7. The call ends there, in \<open>IndexError\<close>, before its \<open>undoMove\<close>.
\<close>

theorem getValidMoves_raises_after_makeMove:
  "play init_state
     [((6, 0), (4, 0)), ((1, 3), (3, 3)), ((4, 0), (3, 0)), ((3, 3), (4, 3)),
      ((3, 0), (2, 0)), ((4, 3), (5, 3)), ((2, 0), (1, 1)), ((5, 3), (6, 2)),
      ((1, 1), (0, 2)), ((6, 2), (7, 1))]
   = Inr pos_last_rank \<and>
   map_sum id (\<lambda>ms. (length ms, last ms)) (getAllPossibleMoves pos_last_rank)
   = Inr (25, move_rec 7 6 5 7 ''wN'' ''--'') \<and>
   makeMove pos_last_rank (move_rec 7 6 5 7 ''wN'' ''--'') = Inr pos_Nh3 \<and>
   inCheck (pos_Nh3\<lparr>whiteToMove := \<not> whiteToMove pos_Nh3\<rparr>) = Inl IndexError \<and>
   getValidMoves pos_last_rank = Inl IndexError \<and>
   cell (board pos_last_rank) 5 7 = Inr ''--'' \<and> cell (board pos_Nh3) 5 7 = Inr ''wN'' \<and>
   length (moveLog pos_last_rank) = 10 \<and> length (moveLog pos_Nh3) = 11"
proof -
  have "map_sum id (\<lambda>ms. (length ms, last ms)) (getAllPossibleMoves pos_last_rank)
        = Inr (25, move_rec 7 6 5 7 ''wN'' ''--'')"
    by code_simp
  moreover have "makeMove pos_last_rank (move_rec 7 6 5 7 ''wN'' ''--'') = Inr pos_Nh3"
    by code_simp
  moreover have "inCheck (pos_Nh3\<lparr>whiteToMove := \<not> whiteToMove pos_Nh3\<rparr>) = Inl IndexError"
    by code_simp
  moreover have "cell (board pos_last_rank) 5 7 = Inr ''--''"
    and "cell (board pos_Nh3) 5 7 = Inr ''wN''"
    by code_simp+
  moreover have "length (moveLog pos_last_rank) = 10" and "length (moveLog pos_Nh3) = 11"
    by (simp_all add: pos_last_rank_def pos_Nh3_def)
  ultimately show ?thesis
    by (intro conjI) (rule play_last_rank, assumption+, rule getValidMoves_pos_last_rank,
                      assumption+)
qed

text \<open>
  Claim C6, at a position reached from the start. After 1. e4 Nh6 2. Bc4 Nf5 3. Ke2 Nh4
  4. a3 Nxg2 white is to move and its king, on e2 = (6, 4), is not attacked: no
  pseudo-legal move of black ends there. \<open>getValidMoves\<close> returns the empty list and
  sets the checkmate flag, not the stalemate flag: its check test looks at the cached
  square (7, 4), which the knight on g2 attacks.
\<close>

theorem checkmate_flag_without_check:
  "play init_state
     [((6, 4), (4, 4)), ((0, 6), (2, 7)), ((7, 5), (4, 2)), ((2, 7), (3, 5)),
      ((7, 4), (6, 4)), ((3, 5), (4, 7)), ((6, 0), (5, 0)), ((4, 7), (6, 6))]
   = Inr pos_Nxg2 \<and>
   whiteToMove pos_Nxg2 \<and> squares_of (board pos_Nxg2) ''wK'' = [(6, 4)] \<and>
   squareUnderAttack pos_Nxg2 6 4 = Inr (False, pos_Nxg2) \<and>
   getValidMoves pos_Nxg2 = Inr ([], pos_Nxg2\<lparr>checkMate := True\<rparr>) \<and>
   checkMate (pos_Nxg2\<lparr>checkMate := True\<rparr>) = True \<and>
   staleMate (pos_Nxg2\<lparr>checkMate := True\<rparr>) = False"
proof -
  have "whiteToMove pos_Nxg2"
    by (simp add: pos_Nxg2_def)
  moreover have "squares_of (board pos_Nxg2) ''wK'' = [(6, 4)]"
    by code_simp
  moreover have "squareUnderAttack pos_Nxg2 6 4 = Inr (False, pos_Nxg2)"
    by code_simp
  moreover have "checkMate (pos_Nxg2\<lparr>checkMate := True\<rparr>) = True"
    by simp
  moreover have "staleMate (pos_Nxg2\<lparr>checkMate := True\<rparr>) = False"
    by (simp add: pos_Nxg2_def)
  ultimately show ?thesis
    by (intro conjI) (rule play_Nxg2, assumption+, rule getValidMoves_pos_Nxg2, assumption+)
qed

text \<open>
  Claim C5. In the starting position, white to move, \<open>getValidMoves\<close> returns twenty
  moves: eight pawn moves of one step, eight pawn moves of two steps, four knight moves.
\<close>

theorem starting_position_moves:
  "getValidMoves init_state = Inr (start_moves, init_state) \<and>
   whiteToMove init_state \<and> length start_moves = 20 \<and>
   length (filter (\<lambda>m. pieceMoved m = ''wp'' \<and> endCol m = startCol m
                        \<and> endRow m = startRow m - 1) start_moves) = 8 \<and>
   length (filter (\<lambda>m. pieceMoved m = ''wp'' \<and> endCol m = startCol m
                        \<and> endRow m = startRow m - 2) start_moves) = 8 \<and>
   length (filter (\<lambda>m. pieceMoved m = ''wN'') start_moves) = 4"
proof -
  have "whiteToMove init_state"
    by (simp add: init_state_def)
  moreover have "length start_moves = 20"
    by (simp add: start_moves_def)
  moreover have "length (filter (\<lambda>m. pieceMoved m = ''wp'' \<and> endCol m = startCol m
                        \<and> endRow m = startRow m - 1) start_moves) = 8"
    by (simp add: start_moves_def move_rec_def)
  moreover have "length (filter (\<lambda>m. pieceMoved m = ''wp'' \<and> endCol m = startCol m
                        \<and> endRow m = startRow m - 2) start_moves) = 8"
    by (simp add: start_moves_def move_rec_def)
  moreover have "length (filter (\<lambda>m. pieceMoved m = ''wN'') start_moves) = 4"
    by (simp add: start_moves_def move_rec_def)
  ultimately show ?thesis
    by (intro conjI) (rule getValidMoves_init, assumption+)
qed

text \<open>
  Claim C1, at a king move. After 1. e4 d5, a position of legal play, the move of the
  white king from e1 to e2 is applied: the origin is emptied, the king stands on the
  destination, the move is logged and the turn flag flipped, but the cached square of the
  white king is still (7, 4) and not the destination (6, 4).
\<close>

theorem makeMove_king_cache_stale:
  "legal_play init_state [((6, 4), (4, 4)), ((1, 3), (3, 3))] = Some pos_e4_d5 \<and>
   Move_init (7, 4) (6, 4) (board pos_e4_d5) = Inr (move_rec 7 4 6 4 ''wK'' ''--'') \<and>
   makeMove pos_e4_d5 (move_rec 7 4 6 4 ''wK'' ''--'') = Inr pos_Ke2 \<and>
   cell (board pos_Ke2) 7 4 = Inr ''--'' \<and> cell (board pos_Ke2) 6 4 = Inr ''wK'' \<and>
   whiteKingLocation pos_Ke2 = (7, 4)"
proof -
  have "legal_play init_state [((6, 4), (4, 4)), ((1, 3), (3, 3))] = Some pos_e4_d5"
    by (simp add: turn_e4 turn_d5)
  moreover have "Move_init (7, 4) (6, 4) (board pos_e4_d5) = Inr (move_rec 7 4 6 4 ''wK'' ''--'')"
    by code_simp
  moreover have "makeMove pos_e4_d5 (move_rec 7 4 6 4 ''wK'' ''--'') = Inr pos_Ke2"
    by code_simp
  moreover have "cell (board pos_Ke2) 7 4 = Inr ''--''" and "cell (board pos_Ke2) 6 4 = Inr ''wK''"
    by code_simp+
  moreover have "whiteKingLocation pos_Ke2 = (7, 4)"
    by (simp add: pos_Ke2_def)
  ultimately show ?thesis
    by (intro conjI)
qed

text \<open>
  Claim C2, at a reachable position. 1. e4 d5 2. Ke2 Bg4+ 3. a3 is legal play: each move
  is in the list \<open>getValidMoves\<close> returned for the position before it. After 3. a3 the
  white king, found on the board on e2 = (6, 4), is attacked by a pseudo-legal move of
  black.
\<close>

theorem legal_move_leaves_king_attacked:
  "legal_play init_state
     [((6, 4), (4, 4)), ((1, 3), (3, 3)), ((7, 4), (6, 4)), ((0, 2), (4, 6)), ((6, 0), (5, 0))]
   = Some pos_a3 \<and>
   whiteToMove pos_a3 = False \<and> squares_of (board pos_a3) ''wK'' = [(6, 4)] \<and>
   mover_king_attacked pos_a3 = Inr True"
proof -
  have "legal_play init_state
     [((6, 4), (4, 4)), ((1, 3), (3, 3)), ((7, 4), (6, 4)), ((0, 2), (4, 6)), ((6, 0), (5, 0))]
     = Some pos_a3"
    by (simp add: turn_e4 turn_d5 turn_Ke2 turn_Bg4 turn_a3)
  moreover have "whiteToMove pos_a3 = False"
    by (simp add: pos_a3_def)
  moreover have "squares_of (board pos_a3) ''wK'' = [(6, 4)]"
    by code_simp
  moreover have "mover_king_attacked pos_a3 = Inr True"
    by code_simp
  ultimately show ?thesis
    by (intro conjI)
qed

text \<open>
  Claim C4, at a position with pawns on the last ranks. After 1. a4 d5 2. a5 d4 3. a6 d3
  4. axb7 dxc2 5. bxc8 cxb1 a black pawn stands on b1 = (7, 1). The black pawn generator
  reads row 8 there and raises, and so do \<open>getAllPossibleMoves\<close> for black and
  \<open>getValidMoves\<close> for white, which generates the moves of black for its check test.
\<close>

theorem last_rank_pawn_raises:
  "play init_state
     [((6, 0), (4, 0)), ((1, 3), (3, 3)), ((4, 0), (3, 0)), ((3, 3), (4, 3)),
      ((3, 0), (2, 0)), ((4, 3), (5, 3)), ((2, 0), (1, 1)), ((5, 3), (6, 2)),
      ((1, 1), (0, 2)), ((6, 2), (7, 1))]
   = Inr pos_last_rank \<and>
   cell (board pos_last_rank) 7 1 = Inr ''bp'' \<and>
   getPawnmoves (pos_last_rank\<lparr>whiteToMove := False\<rparr>) 7 1 [] = Inl IndexError \<and>
   getAllPossibleMoves (pos_last_rank\<lparr>whiteToMove := False\<rparr>) = Inl IndexError \<and>
   getValidMoves pos_last_rank = Inl IndexError"
proof -
  have "cell (board pos_last_rank) 7 1 = Inr ''bp''"
    by code_simp
  moreover have "getPawnmoves (pos_last_rank\<lparr>whiteToMove := False\<rparr>) 7 1 [] = Inl IndexError"
    by code_simp
  moreover have "getAllPossibleMoves (pos_last_rank\<lparr>whiteToMove := False\<rparr>) = Inl IndexError"
    by code_simp
  ultimately show ?thesis
    by (intro conjI) (rule play_last_rank, assumption+, rule getValidMoves_pos_last_rank)
qed

text \<open>
  Claim C7, at a pawn on its last rank. In the same position the white pawn on
  c8 = (0, 2) has no square in front of it; the generator reads row -1, which is row 7,
  finds the black pawn on b1 and offers the move to (-1, 1).
\<close>

theorem last_rank_pawn_wraps:
  "whiteToMove pos_last_rank \<and> cell (board pos_last_rank) 0 2 = Inr ''wp'' \<and>
   getPawnmoves pos_last_rank 0 2 [] = Inr [move_rec 0 2 (- 1) 1 ''wp'' ''bp'']"
proof -
  have "whiteToMove pos_last_rank"
    by (simp add: pos_last_rank_def)
  moreover have "cell (board pos_last_rank) 0 2 = Inr ''wp''"
    by code_simp
  moreover have "getPawnmoves pos_last_rank 0 2 [] = Inr [move_rec 0 2 (- 1) 1 ''wp'' ''bp'']"
    by code_simp
  ultimately show ?thesis
    by (intro conjI)
qed

end
